theory Spec2Isabelle
  imports Complex_Main
begin

section \<open>Sticker conversion and cache pipeline\<close>

text \<open>
  A shallow embedding of the three converters of the sticker bot
  (\<^verbatim>\<open>handler_webm.js\<close>, \<^verbatim>\<open>handler_tgs.js\<close>, \<^verbatim>\<open>handler_static.js\<close>).
  The converters are asynchronous JavaScript methods that touch the file system, the
  network, external processes and the process-global object. Each becomes a function
  from a \<open>world\<close> to a result and a new world; a rejected promise or a thrown error is
  the \<open>Inl\<close> branch of the result, and a promise that never settles is the result
  \<open>None\<close> (the world beside it is the one the pending call has left). What the outside does (whether a download arrives,
  whether a tool exits with status 0) is an argument of the model, so that a theorem
  about a converter holds for every behaviour of the outside.
\<close>

subsection \<open>Strings\<close>

text \<open>The double quote that the shell commands put around paths.\<close>

definition dq :: string where
  "dq = [CHR 0x22]"

text \<open>\<^verbatim>\<open>String.prototype.toLowerCase\<close>, on the ASCII letters.\<close>

definition lower_char :: "char \<Rightarrow> char" where
  "lower_char c =
     (case map_of (zip ''ABCDEFGHIJKLMNOPQRSTUVWXYZ'' ''abcdefghijklmnopqrstuvwxyz'') c of
        None \<Rightarrow> c
      | Some l \<Rightarrow> l)"

definition toLowerCase :: "string \<Rightarrow> string" where
  "toLowerCase s = map lower_char s"

fun startsWith :: "string \<Rightarrow> string \<Rightarrow> bool" where
  "startsWith s [] = True"
| "startsWith [] (p # ps) = False"
| "startsWith (c # cs) (p # ps) = (c = p \<and> startsWith cs ps)"

text \<open>\<^verbatim>\<open>String.prototype.includes\<close>: the pattern occurs somewhere in the string.\<close>

fun str_includes :: "string \<Rightarrow> string \<Rightarrow> bool" where
  "str_includes [] p = (p = [])"
| "str_includes (c # cs) p = (startsWith (c # cs) p \<or> str_includes cs p)"

text \<open>
  \<^verbatim>\<open>String(n).padStart(4, '0')\<close>: the decimal digits of a natural number, filled with
  zeros on the left up to four characters (longer numbers are left as they are).
\<close>

definition digit_char :: "nat \<Rightarrow> char" where
  "digit_char d = ''0123456789'' ! (d mod 10)"

fun decimal :: "nat \<Rightarrow> string" where
  "decimal n = (if n < 10 then [digit_char n] else decimal (n div 10) @ [digit_char n])"

declare decimal.simps [simp del]

definition padStart4 :: "string \<Rightarrow> string" where
  "padStart4 s = replicate (4 - length s) CHR ''0'' @ s"

text \<open>Reading a decimal numeral back, to tell the frame names apart.\<close>

definition digit_value :: "char \<Rightarrow> nat" where
  "digit_value c = (case map_of (zip ''0123456789'' [0 ..< 10]) c of None \<Rightarrow> 0 | Some v \<Rightarrow> v)"

definition parse_decimal :: "string \<Rightarrow> nat" where
  "parse_decimal s = foldl (\<lambda>v c. 10 * v + digit_value c) 0 s"

subsection \<open>The world: file system, global object, outside calls\<close>

type_synonym path = string

text \<open>
  \<^verbatim>\<open>path.join(dir, name)\<close>. Every path the converters build has this shape, with
  \<open>name\<close> a single component.
\<close>

definition path_join :: "path \<Rightarrow> string \<Rightarrow> path" where
  "path_join d n = d @ ''/'' @ n"

text \<open>What leaves the process: an HTTP GET (axios) or a shell command (\<^verbatim>\<open>exec\<close>).\<close>

datatype event = HttpGet string | Exec string

text \<open>
  The file system maps each existing directory to the names of the regular files in it.
  \<open>globals\<close> are the names bound on the process-global object, \<open>calls\<close> the outside
  calls made so far, oldest first.
\<close>

record world =
  dirs :: "path \<Rightarrow> string list option"
  globals :: "string list"
  calls :: "event list"

datatype failure =
    DownloadFailure
  | DecodeFailure
  | RenderFailure
  | ExternalToolFailure
  | FsFailure

text \<open>\<^verbatim>\<open>fs.access(path.join(d, n))\<close> resolves.\<close>

definition access :: "world \<Rightarrow> path \<Rightarrow> string \<Rightarrow> bool" where
  "access w d n = (case dirs w d of None \<Rightarrow> False | Some es \<Rightarrow> n \<in> set es)"

text \<open>\<^verbatim>\<open>fs.mkdir(d, { recursive: true })\<close>: no error when the directory exists.\<close>

definition mkdir_p :: "path \<Rightarrow> world \<Rightarrow> world" where
  "mkdir_p d w = (case dirs w d of None \<Rightarrow> w\<lparr>dirs := (dirs w)(d \<mapsto> [])\<rparr> | Some es \<Rightarrow> w)"

text \<open>
  \<^verbatim>\<open>fs.mkdir(path.join(d, n), { recursive: true })\<close>: the parent \<open>d\<close> is created too
  when it is missing.
\<close>

definition mkdir_recursive :: "path \<Rightarrow> string \<Rightarrow> world \<Rightarrow> world" where
  "mkdir_recursive d n w = mkdir_p (path_join d n) (mkdir_p d w)"

text \<open>Creating or overwriting the file \<open>n\<close> in \<open>d\<close>; \<open>None\<close> is ENOENT (no such directory).\<close>

definition write_file :: "path \<Rightarrow> string \<Rightarrow> world \<Rightarrow> world option" where
  "write_file d n w =
     (case dirs w d of
        None \<Rightarrow> None
      | Some es \<Rightarrow> Some (w\<lparr>dirs := (dirs w)(d \<mapsto> List.insert n es)\<rparr>))"

text \<open>\<^verbatim>\<open>fs.unlink(path.join(d, n))\<close>; \<open>None\<close> is the rejection when the file is not there.\<close>

definition unlink :: "path \<Rightarrow> string \<Rightarrow> world \<Rightarrow> world option" where
  "unlink d n w =
     (case dirs w d of
        None \<Rightarrow> None
      | Some es \<Rightarrow>
          if n \<in> set es then Some (w\<lparr>dirs := (dirs w)(d \<mapsto> removeAll n es)\<rparr>) else None)"

text \<open>\<^verbatim>\<open>fs.unlink(p).catch(() => {})\<close>: the rejection is swallowed.\<close>

definition unlink_quiet :: "path \<Rightarrow> string \<Rightarrow> world \<Rightarrow> world" where
  "unlink_quiet d n w = (case unlink d n w of None \<Rightarrow> w | Some w' \<Rightarrow> w')"

text \<open>\<^verbatim>\<open>fs.readdir(d)\<close>; \<open>None\<close> is the rejection when \<open>d\<close> does not exist.\<close>

definition readdir :: "path \<Rightarrow> world \<Rightarrow> string list option" where
  "readdir d w = dirs w d"

text \<open>\<^verbatim>\<open>fs.rmdir(d)\<close> removes an empty directory and rejects otherwise.\<close>

definition rmdir :: "path \<Rightarrow> world \<Rightarrow> world option" where
  "rmdir d w =
     (case dirs w d of
        Some [] \<Rightarrow> Some (w\<lparr>dirs := (dirs w)(d := None)\<rparr>)
      | _ \<Rightarrow> None)"

definition rmdir_quiet :: "path \<Rightarrow> world \<Rightarrow> world" where
  "rmdir_quiet d w = (case rmdir d w of None \<Rightarrow> w | Some w' \<Rightarrow> w')"

text \<open>\<^verbatim>\<open>for (const f of files) await fs.unlink(path.join(d, f)).catch(() => {})\<close>\<close>

fun unlink_each :: "path \<Rightarrow> string list \<Rightarrow> world \<Rightarrow> world" where
  "unlink_each d [] w = w"
| "unlink_each d (f # fs) w = unlink_each d fs (unlink_quiet d f w)"

definition log_call :: "event \<Rightarrow> world \<Rightarrow> world" where
  "log_call e w = w\<lparr>calls := calls w @ [e]\<rparr>"

subsection \<open>The handlers' directories and the cache key\<close>

text \<open>
  The three constructors are the same: \<^verbatim>\<open>cacheDir = path.join(__dirname, '..', 'gif-cache')\<close>
  and \<^verbatim>\<open>tempDir = path.join(__dirname, '..', 'temp')\<close>. The argument is the directory
  above \<^verbatim>\<open>__dirname\<close>.
\<close>

record handler =
  cacheDir :: path
  tempDir :: path

definition new_handler :: "path \<Rightarrow> handler" where
  "new_handler parent =
     \<lparr>cacheDir = path_join parent ''gif-cache'', tempDir = path_join parent ''temp''\<rparr>"

definition initDirs :: "handler \<Rightarrow> world \<Rightarrow> world" where
  "initDirs h w = mkdir_p (tempDir h) (mkdir_p (cacheDir h) w)"

text \<open>
  \<^verbatim>\<open>crypto.createHash('md5').update(input).digest('hex')\<close>. The digest is Node's
  library function; it is the argument \<open>md5\<close> of everything that hashes.
\<close>

definition generateHash :: "(string \<Rightarrow> string) \<Rightarrow> string \<Rightarrow> string" where
  "generateHash md5 input = md5 input"

text \<open>
  \<^verbatim>\<open>fileId || url\<close>: JavaScript's \<^verbatim>\<open>||\<close> takes the right operand when the left one is
  falsy, which for the parameter \<^verbatim>\<open>fileId = null\<close> is \<^verbatim>\<open>null\<close>, \<^verbatim>\<open>undefined\<close> (both
  \<open>None\<close>) or the empty string.
\<close>

definition or_else :: "string option \<Rightarrow> string \<Rightarrow> string" where
  "or_else fileId url =
     (case fileId of None \<Rightarrow> url | Some i \<Rightarrow> if i = [] then url else i)"

subsection \<open>Downloads and external tools\<close>

text \<open>
  What the network does to \<^verbatim>\<open>downloadFile\<close>: the body arrives and is written to the
  end; or the promise is rejected (by axios, before the file is opened, or by the
  writer), leaving a partial file or not; or the response starts and the transport
  fails in the middle of the body. \<^verbatim>\<open>downloadFile\<close> settles its promise on the writer's
  \<^verbatim>\<open>finish\<close> and \<^verbatim>\<open>error\<close> events only, and \<^verbatim>\<open>pipe\<close> passes an error of the response
  stream to nobody: in the last case the writer has opened the file and then neither
  event comes.
\<close>

datatype download = Downloaded | DownloadRejected bool | DownloadStalled

text \<open>
  The result \<open>None\<close> is the promise that never settles: the \<^verbatim>\<open>await\<close> of the caller does
  not return, and neither its \<^verbatim>\<open>catch\<close> block nor any statement after it runs.
\<close>

definition downloadFile ::
  "download \<Rightarrow> string \<Rightarrow> path \<Rightarrow> string \<Rightarrow> world
     \<Rightarrow> (failure + unit) option \<times> world" where
  "downloadFile outcome url d n w =
     (let w1 = log_call (HttpGet url) w in
      case outcome of
        Downloaded \<Rightarrow>
          (case write_file d n w1 of
             None \<Rightarrow> (Some (Inl DownloadFailure), w1)
           | Some w2 \<Rightarrow> (Some (Inr ()), w2))
      | DownloadRejected partial \<Rightarrow>
          (Some (Inl DownloadFailure),
           if partial then (case write_file d n w1 of None \<Rightarrow> w1 | Some w2 \<Rightarrow> w2) else w1)
      | DownloadStalled \<Rightarrow>
          (case write_file d n w1 of
             None \<Rightarrow> (Some (Inl DownloadFailure), w1)
           | Some w2 \<Rightarrow> (None, w2)))"

text \<open>
  How an external command ends: exit status 0 with its output file written, or an
  error (\<^verbatim>\<open>exec\<close> calls back with \<^verbatim>\<open>error\<close>), leaving a partial output file or not.
\<close>

datatype tool = Exit0 | ExitError bool

text \<open>\<^verbatim>\<open>exec(cmd, ...)\<close> for a command whose output is the one file \<open>n\<close> in \<open>d\<close>.\<close>

definition exec_to_file ::
  "tool \<Rightarrow> string \<Rightarrow> path \<Rightarrow> string \<Rightarrow> world \<Rightarrow> (failure + unit) \<times> world" where
  "exec_to_file outcome cmd d n w =
     (let w1 = log_call (Exec cmd) w in
      case outcome of
        Exit0 \<Rightarrow>
          (case write_file d n w1 of
             None \<Rightarrow> (Inl ExternalToolFailure, w1)
           | Some w2 \<Rightarrow> (Inr (), w2))
      | ExitError partial \<Rightarrow>
          (Inl ExternalToolFailure,
           if partial then (case write_file d n w1 of None \<Rightarrow> w1 | Some w2 \<Rightarrow> w2) else w1))"

text \<open>
  \<^verbatim>\<open>exec(cmd, ...)\<close> for ffmpeg's frame extraction, whose output is a numbered image
  sequence in \<open>d\<close>: the files it wrote and whether it exited with status 0.
\<close>

fun write_each :: "path \<Rightarrow> string list \<Rightarrow> world \<Rightarrow> world" where
  "write_each d [] w = w"
| "write_each d (n # ns) w =
     write_each d ns (case write_file d n w of None \<Rightarrow> w | Some w' \<Rightarrow> w')"

definition exec_to_dir ::
  "string list \<times> bool \<Rightarrow> string \<Rightarrow> path \<Rightarrow> world \<Rightarrow> (failure + unit) \<times> world" where
  "exec_to_dir outcome cmd d w =
     (let w1 = write_each d (fst outcome) (log_call (Exec cmd) w) in
      if snd outcome then (Inr (), w1) else (Inl ExternalToolFailure, w1))"

text \<open>
  \<^verbatim>\<open>gifski --fps ${fps} --width 256 --quality 90 -o "${cachedGif}" ${framesDir}/frame_*.png\<close>
\<close>

definition gifski_command :: "nat \<Rightarrow> path \<Rightarrow> path \<Rightarrow> string" where
  "gifski_command fps cachedGif framesDir =
     ''gifski --fps '' @ decimal fps @ '' --width 256 --quality 90 -o '' @ dq @ cachedGif @ dq
       @ '' '' @ framesDir @ ''/frame_*.png''"

subsection \<open>StaticHandler.resizeStaticImage\<close>

record static_env =
  static_download :: download
  static_ffmpeg :: tool

definition sniff_ext :: "string \<Rightarrow> string" where
  "sniff_ext imageUrl =
     (let urlLower = toLowerCase imageUrl in
      if str_includes urlLower ''.png'' then ''png''
      else if str_includes urlLower ''.jpg'' \<or> str_includes urlLower ''.jpeg'' then ''jpg''
      else ''webp'')"

text \<open>\<^verbatim>\<open>ffmpeg -i "${tempImage}" -vf "scale=256:-1" -y "${cachedImage}"\<close>\<close>

definition resize_command :: "path \<Rightarrow> path \<Rightarrow> string" where
  "resize_command tempImage cachedImage =
     ''ffmpeg -i '' @ dq @ tempImage @ dq @ '' -vf '' @ dq @ ''scale=256:-1'' @ dq
       @ '' -y '' @ dq @ cachedImage @ dq"

text \<open>The \<^verbatim>\<open>try\<close> block: download, resize, remove the temporary file.\<close>

definition static_try ::
  "handler \<Rightarrow> static_env \<Rightarrow> string \<Rightarrow> string \<Rightarrow> string \<Rightarrow> world
     \<Rightarrow> (failure + path) option \<times> world" where
  "static_try h env imageUrl cachedName tempName w =
     (let cachedImage = path_join (cacheDir h) cachedName;
          tempImage = path_join (tempDir h) tempName
      in
      case downloadFile (static_download env) imageUrl (tempDir h) tempName w of
        (None, w1) \<Rightarrow> (None, w1)
      | (Some (Inl e), w1) \<Rightarrow> (Some (Inl e), w1)
      | (Some (Inr u), w1) \<Rightarrow>
          (case exec_to_file (static_ffmpeg env) (resize_command tempImage cachedImage)
                  (cacheDir h) cachedName w1 of
             (Inl e, w2) \<Rightarrow> (Some (Inl e), w2)
           | (Inr u', w2) \<Rightarrow>
               (Some (Inr cachedImage), unlink_quiet (tempDir h) tempName w2)))"

definition resizeStaticImage ::
  "(string \<Rightarrow> string) \<Rightarrow> handler \<Rightarrow> static_env \<Rightarrow> string \<Rightarrow> world
     \<Rightarrow> (failure + path) option \<times> world" where
  "resizeStaticImage md5 h env imageUrl w =
     (let hash = generateHash md5 imageUrl;
          cachedName = hash @ ''.webp'';
          cachedImage = path_join (cacheDir h) cachedName
      in
      if access w (cacheDir h) cachedName then (Some (Inr cachedImage), w)
      else
        (let ext = sniff_ext imageUrl;
             tempName = hash @ ''_orig.'' @ ext
         in
         (case static_try h env imageUrl cachedName tempName w of
            (None, w') \<Rightarrow> (None, w')
          | (Some (Inr p), w') \<Rightarrow> (Some (Inr p), w')
          | (Some (Inl error), w') \<Rightarrow>
              (Some (Inl error),
               unlink_quiet (cacheDir h) cachedName (unlink_quiet (tempDir h) tempName w')))))"

text \<open>
  The call \<^verbatim>\<open>this.staticHandler.resizeStaticImage(stickerUrl, fileId)\<close> of the picker's
  send route: the method declares one parameter, so JavaScript drops the second
  argument.
\<close>

definition resizeStaticImage_call ::
  "(string \<Rightarrow> string) \<Rightarrow> handler \<Rightarrow> static_env \<Rightarrow> string \<Rightarrow> string option \<Rightarrow> world
     \<Rightarrow> (failure + path) option \<times> world" where
  "resizeStaticImage_call md5 h env stickerUrl fileId w =
     resizeStaticImage md5 h env stickerUrl w"

subsection \<open>WebmHandler.convertWebmToGif\<close>

record webm_env =
  webm_download :: download
  webm_ffmpeg :: "string list \<times> bool"
  webm_gifski :: tool

text \<open>
  \<^verbatim>\<open>ffmpeg -i "${tempWebm}" -vf "fps=50,scale=256:-1:flags=lanczos" "${framesDir}/frame_%04d.png"\<close>
\<close>

definition extract_command :: "path \<Rightarrow> path \<Rightarrow> string" where
  "extract_command tempWebm framesDir =
     ''ffmpeg -i '' @ dq @ tempWebm @ dq @ '' -vf '' @ dq
       @ ''fps=50,scale=256:-1:flags=lanczos'' @ dq @ '' '' @ dq @ framesDir
       @ ''/frame_%04d.png'' @ dq"

text \<open>
  The \<^verbatim>\<open>try\<close> block. \<^verbatim>\<open>framesDir\<close> is declared inside it, so the \<^verbatim>\<open>catch\<close> block
  below cannot name it.
\<close>

definition webm_try ::
  "handler \<Rightarrow> webm_env \<Rightarrow> string \<Rightarrow> string \<Rightarrow> world
     \<Rightarrow> (failure + path) option \<times> world" where
  "webm_try h env webmUrl hash w =
     (let cachedName = hash @ ''.gif'';
          cachedGif = path_join (cacheDir h) cachedName;
          tempName = hash @ ''.webm'';
          tempWebm = path_join (tempDir h) tempName
      in
      case downloadFile (webm_download env) webmUrl (tempDir h) tempName w of
        (None, w1) \<Rightarrow> (None, w1)
      | (Some (Inl e), w1) \<Rightarrow> (Some (Inl e), w1)
      | (Some (Inr u), w1) \<Rightarrow>
          (let framesDir = path_join (tempDir h) (''webm_'' @ hash);
               w2 = mkdir_recursive (tempDir h) (''webm_'' @ hash) w1
           in
           case exec_to_dir (webm_ffmpeg env) (extract_command tempWebm framesDir) framesDir w2 of
             (Inl e, w3) \<Rightarrow> (Some (Inl e), w3)
           | (Inr u', w3) \<Rightarrow>
               (case exec_to_file (webm_gifski env) (gifski_command 50 cachedGif framesDir)
                       (cacheDir h) cachedName w3 of
                  (Inl e, w4) \<Rightarrow> (Some (Inl e), w4)
                | (Inr u'', w4) \<Rightarrow>
                    (case readdir framesDir w4 of
                       None \<Rightarrow> (Some (Inl FsFailure), w4)
                     | Some frames \<Rightarrow>
                         (Some (Inr cachedGif),
                          unlink_quiet (tempDir h) tempName
                            (rmdir_quiet framesDir (unlink_each framesDir frames w4)))))))"

definition convertWebmToGif ::
  "(string \<Rightarrow> string) \<Rightarrow> handler \<Rightarrow> webm_env \<Rightarrow> string \<Rightarrow> string option \<Rightarrow> world
     \<Rightarrow> (failure + path) option \<times> world" where
  "convertWebmToGif md5 h env webmUrl fileId w =
     (let hash = generateHash md5 (or_else fileId webmUrl);
          cachedName = hash @ ''.gif'';
          cachedGif = path_join (cacheDir h) cachedName
      in
      if access w (cacheDir h) cachedName then (Some (Inr cachedGif), w)
      else
        (let tempName = hash @ ''.webm'' in
         (case webm_try h env webmUrl hash w of
            (None, w') \<Rightarrow> (None, w')
          | (Some (Inr p), w') \<Rightarrow> (Some (Inr p), w')
          | (Some (Inl error), w') \<Rightarrow>
              (Some (Inl error),
               unlink_quiet (cacheDir h) cachedName (unlink_quiet (tempDir h) tempName w')))))"

subsection \<open>TgsHandler.convertTgsToGif\<close>

text \<open>
  What the download holds: bytes that are not gzip, gzip of something that is not JSON,
  or a Lottie document. Of the document the converter itself reads the field \<^verbatim>\<open>fr\<close>,
  a JSON number when present; the numbers are taken as exact rationals.
\<close>

record animData =
  fr :: "rat option"

datatype payload = NotGzip | NotJson | Lottie animData

text \<open>
  The outside of one TGS conversion: the response (\<open>None\<close> when axios rejects), whether
  \<^verbatim>\<open>new JSDOM\<close> returns, the names that the runtime's global object does not let the
  code assign (Node.js from version 21 on defines \<^verbatim>\<open>navigator\<close> with a getter and no
  setter), \<^verbatim>\<open>anim.totalFrames\<close> of the animation that lottie-web loads (\<open>None\<close> when
  loading throws), for each frame index whether \<^verbatim>\<open>goToAndStop\<close> and \<^verbatim>\<open>toBuffer\<close>
  return, whether \<^verbatim>\<open>anim.destroy\<close> returns, and how gifski ends.
\<close>

record tgs_env =
  tgs_response :: "payload option"
  tgs_jsdom :: bool
  tgs_readonly :: "string list"
  tgs_anim :: "int option"
  tgs_raster :: "int \<Rightarrow> bool"
  tgs_destroy :: bool
  tgs_gifski :: tool

text \<open>\<^verbatim>\<open>Math.round\<close>: the nearest integer, a half rounded up.\<close>

definition math_round :: "rat \<Rightarrow> int" where
  "math_round x = \<lfloor>x + 1 / 2\<rfloor>"

text \<open>
  \<^verbatim>\<open>Math.max(1, Math.round((animData.fr || 60) / targetFps))\<close> with \<^verbatim>\<open>targetFps = 50\<close>;
  a missing \<^verbatim>\<open>fr\<close> and the number 0 are falsy.
\<close>

definition targetFps :: nat where
  "targetFps = 50"

definition native_rate :: "animData \<Rightarrow> rat" where
  "native_rate a = (case fr a of None \<Rightarrow> 60 | Some r \<Rightarrow> if r = 0 then 60 else r)"

definition tgs_step :: "animData \<Rightarrow> int" where
  "tgs_step a = max 1 (math_round (native_rate a / of_nat targetFps))"

text \<open>\<^verbatim>\<open>`frame_${String(frameNum).padStart(4, '0')}.png`\<close>\<close>

definition frame_name :: "nat \<Rightarrow> string" where
  "frame_name frameNum = ''frame_'' @ padStart4 (decimal frameNum) @ ''.png''"

text \<open>
  The rasterization loop
  \<^verbatim>\<open>for (let i = 0; i < anim.totalFrames; i += step) { ...; frameNum++ }\<close>
  from the state \<open>(i, frameNum)\<close>. The stride is the constant \<open>tgs_step a\<close>, which is at
  least 1, so the loop ends. Beside \<^verbatim>\<open>frameNum\<close> the model returns the list of the
  frame indices rendered with the file each was written to, in the order of writing.
\<close>

function renderFrames ::
  "(int \<Rightarrow> bool) \<Rightarrow> animData \<Rightarrow> int \<Rightarrow> path \<Rightarrow> int \<Rightarrow> nat \<Rightarrow> (int \<times> string) list \<Rightarrow> world
     \<Rightarrow> (failure + nat \<times> (int \<times> string) list) \<times> world" where
  "renderFrames raster a totalFrames framesDir i frameNum acc w =
     (if i < totalFrames then
        (if \<not> raster i then (Inl RenderFailure, w)
         else
           (case write_file framesDir (frame_name frameNum) w of
              None \<Rightarrow> (Inl FsFailure, w)
            | Some w' \<Rightarrow>
                renderFrames raster a totalFrames framesDir (i + tgs_step a) (frameNum + 1)
                  (acc @ [(i, frame_name frameNum)]) w'))
      else (Inr (frameNum, acc), w))"
  by pat_completeness auto
termination
  by (relation "measure (\<lambda>(raster, a, totalFrames, framesDir, i, frameNum, acc, w).
        nat (totalFrames - i))") (auto simp: tgs_step_def)

declare renderFrames.simps [simp del]

text \<open>
  The bindings \<^verbatim>\<open>g.window\<close>, \<^verbatim>\<open>g.document\<close>, \<^verbatim>\<open>g.navigator\<close>,
  \<^verbatim>\<open>g.requestAnimationFrame\<close>, \<^verbatim>\<open>g.cancelAnimationFrame\<close> on \<^verbatim>\<open>global\<close>, in the order
  of the five assignments.
\<close>

definition dom_globals :: "string list" where
  "dom_globals =
     [''window'', ''document'', ''navigator'', ''requestAnimationFrame'',
      ''cancelAnimationFrame'']"

text \<open>
  The assignments run one after the other inside the \<^verbatim>\<open>try\<close> block, in the strict code
  of a class body: assigning to a name that the global object only lets one read throws
  a \<^verbatim>\<open>TypeError\<close>, and the names assigned before it stay bound.
\<close>

fun assign_globals :: "string list \<Rightarrow> string list \<Rightarrow> world \<Rightarrow> (failure + unit) \<times> world" where
  "assign_globals readonly [] w = (Inr (), w)"
| "assign_globals readonly (g # gs) w =
     (if g \<in> set readonly then (Inl RenderFailure, w)
      else assign_globals readonly gs (w\<lparr>globals := List.insert g (globals w)\<rparr>))"

definition install_globals :: "string list \<Rightarrow> world \<Rightarrow> (failure + unit) \<times> world" where
  "install_globals readonly w = assign_globals readonly dom_globals w"

definition delete_globals :: "world \<Rightarrow> world" where
  "delete_globals w = w\<lparr>globals := filter (\<lambda>g. g \<notin> set dom_globals) (globals w)\<rparr>"

text \<open>The \<^verbatim>\<open>try\<close> block.\<close>

definition tgs_try ::
  "handler \<Rightarrow> tgs_env \<Rightarrow> string \<Rightarrow> string \<Rightarrow> world \<Rightarrow> (failure + path) \<times> world" where
  "tgs_try h env tgsUrl hash w =
     (let cachedName = hash @ ''.gif'';
          cachedGif = path_join (cacheDir h) cachedName;
          framesDir = path_join (tempDir h) (''tgs_'' @ hash);
          w1 = log_call (HttpGet tgsUrl) w
      in
      case tgs_response env of
        None \<Rightarrow> (Inl DownloadFailure, w1)
      | Some NotGzip \<Rightarrow> (Inl DecodeFailure, w1)
      | Some NotJson \<Rightarrow> (Inl DecodeFailure, w1)
      | Some (Lottie a) \<Rightarrow>
          (if \<not> tgs_jsdom env then (Inl RenderFailure, w1)
           else
             (case install_globals (tgs_readonly env) w1 of
                (Inl e, w2) \<Rightarrow> (Inl e, w2)
              | (Inr installed, w2) \<Rightarrow>
                  (case tgs_anim env of
                     None \<Rightarrow> (Inl RenderFailure, w2)
                   | Some totalFrames \<Rightarrow>
                       (case renderFrames (tgs_raster env) a totalFrames framesDir 0 0 []
                               (mkdir_recursive (tempDir h) (''tgs_'' @ hash) w2) of
                          (Inl e, w4) \<Rightarrow> (Inl e, w4)
                        | (Inr rendered, w4) \<Rightarrow>
                            (if \<not> tgs_destroy env then (Inl RenderFailure, w4)
                             else
                               (case exec_to_file (tgs_gifski env)
                                       (gifski_command targetFps cachedGif framesDir)
                                       (cacheDir h) cachedName w4 of
                                  (Inl e, w5) \<Rightarrow> (Inl e, w5)
                                | (Inr u, w5) \<Rightarrow>
                                    (case readdir framesDir w5 of
                                       None \<Rightarrow> (Inl FsFailure, w5)
                                     | Some files \<Rightarrow>
                                         (Inr cachedGif,
                                          delete_globals
                                            (rmdir_quiet framesDir
                                               (unlink_each framesDir files w5)))))))))))"

text \<open>
  The method returns a path or \<^verbatim>\<open>null\<close> (\<open>Inr None\<close>). The \<^verbatim>\<open>catch\<close> block lists the
  frames directory (\<^verbatim>\<open>.catch(() => [])\<close>), removes its files and the directory, removes
  the cached GIF and returns \<^verbatim>\<open>null\<close>.
\<close>

definition convertTgsToGif ::
  "(string \<Rightarrow> string) \<Rightarrow> handler \<Rightarrow> tgs_env \<Rightarrow> string \<Rightarrow> string option \<Rightarrow> world
     \<Rightarrow> (failure + path option) \<times> world" where
  "convertTgsToGif md5 h env tgsUrl fileId w =
     (let hash = generateHash md5 (or_else fileId tgsUrl);
          cachedName = hash @ ''.gif'';
          cachedGif = path_join (cacheDir h) cachedName
      in
      if access w (cacheDir h) cachedName then (Inr (Some cachedGif), w)
      else
        (let framesDir = path_join (tempDir h) (''tgs_'' @ hash) in
         (case tgs_try h env tgsUrl hash w of
            (Inr p, w') \<Rightarrow> (Inr (Some p), w')
          | (Inl error, w') \<Rightarrow>
              (let files = (case readdir framesDir w' of None \<Rightarrow> [] | Some fs \<Rightarrow> fs) in
               (Inr None,
                unlink_quiet (cacheDir h) cachedName
                  (rmdir_quiet framesDir (unlink_each framesDir files w')))))))"

subsection \<open>The eviction sweeper\<close>

text \<open>
  Modelled from the spec: the sweeper's source (\<^verbatim>\<open>cache_manager.js\<close>, which the bot's entry
  file requires and starts) is not among the sources; what follows is the data model
  and the algorithm of the specification. A cached artifact has a name, a size in bytes
  and a last-modified time.
\<close>

record artifact =
  artifact_name :: string
  sizeBytes :: nat
  lastModifiedTime :: nat

text \<open>Modelled from the spec: "list all entries in the cache directory; sum their sizes".\<close>

definition total_size :: "artifact list \<Rightarrow> nat" where
  "total_size entries = sum_list (map sizeBytes entries)"

text \<open>
  Modelled from the spec: "delete entries, accumulating freed space, until the running
  total is at or below the budget". The argument is the list in deletion order; the
  result is the list of the entries deleted, in the order of deletion.
\<close>

fun evict :: "nat \<Rightarrow> nat \<Rightarrow> nat \<Rightarrow> artifact list \<Rightarrow> artifact list" where
  "evict budget sizeSum freed [] = []"
| "evict budget sizeSum freed (a # as) =
     (if sizeSum - freed \<le> budget then []
      else a # evict budget sizeSum (freed + sizeBytes a) as)"

text \<open>
  Modelled from the spec: one sweep cycle, "if the sum exceeds a fixed budget, sort
  entries by last-modified time ascending and delete entries ...". The result is the
  entries deleted, in order, and the entries left in the directory.
\<close>

definition sweep :: "nat \<Rightarrow> artifact list \<Rightarrow> artifact list \<times> artifact list" where
  "sweep budget entries =
     (let sizeSum = total_size entries in
      if sizeSum > budget then
        (let sorted_entries = sort_key lastModifiedTime entries;
             deleted = evict budget sizeSum 0 sorted_entries
         in (deleted, drop (length deleted) sorted_entries))
      else ([], entries))"

subsection \<open>Concrete inputs\<close>

text \<open>
  The MD5 digests, in hexadecimal, of the five strings that the examples below hash;
  the examples take this table for the digest function.
\<close>

definition md5_examples :: "string \<Rightarrow> string" where
  "md5_examples s =
     (if s = ''abc123'' then ''e99a18c428cb38d5f260853678922e03''
      else if s = ''https://example/file.webm'' then ''0c2d8535b2a589f761a4b3db29f068a3''
      else if s = ''https://example/file.png'' then ''d2a9a6630c9cf740bf0a56844d25bc81''
      else if s = ''https://example/file.tgs'' then ''9506adac5918911c7106bfb2e76213e1''
      else if s = ''https://example/rotated.png'' then ''44a748c47e23fbb491a3d6ea342be617''
      else [])"

text \<open>A handler installed under \<^verbatim>\<open>/srv/bot\<close>, and the world after its \<^verbatim>\<open>initDirs\<close>.\<close>

definition bot_handler :: handler where
  "bot_handler = new_handler ''/srv/bot''"

definition fresh_world :: world where
  "fresh_world = initDirs bot_handler \<lparr>dirs = (\<lambda>d. None), globals = [], calls = []\<rparr>"

text \<open>An outside where every step of a WebM conversion succeeds, with two frames.\<close>

definition webm_fine :: webm_env where
  "webm_fine =
     \<lparr>webm_download = Downloaded,
      webm_ffmpeg = ([''frame_0001.png'', ''frame_0002.png''], True),
      webm_gifski = Exit0\<rparr>"

text \<open>An outside where ffmpeg writes two frames and gifski then fails.\<close>

definition webm_gifski_fails :: webm_env where
  "webm_gifski_fails =
     \<lparr>webm_download = Downloaded,
      webm_ffmpeg = ([''frame_0001.png'', ''frame_0002.png''], True),
      webm_gifski = ExitError False\<rparr>"

text \<open>An outside where every step of a TGS conversion succeeds: 60 fps, 3 frames.\<close>

definition tgs_fine :: tgs_env where
  "tgs_fine =
     \<lparr>tgs_response = Some (Lottie \<lparr>fr = Some 60\<rparr>),
      tgs_jsdom = True,
      tgs_readonly = [],
      tgs_anim = Some 3,
      tgs_raster = (\<lambda>i. True),
      tgs_destroy = True,
      tgs_gifski = Exit0\<rparr>"

text \<open>The same outside with a payload that is not gzip, and with a failing encoder.\<close>

definition tgs_not_gzip :: tgs_env where
  "tgs_not_gzip = tgs_fine\<lparr>tgs_response := Some NotGzip\<rparr>"

definition tgs_gifski_fails :: tgs_env where
  "tgs_gifski_fails = tgs_fine\<lparr>tgs_gifski := ExitError True\<rparr>"

text \<open>The same outside on a runtime whose \<^verbatim>\<open>navigator\<close> cannot be assigned.\<close>

definition tgs_navigator_readonly :: tgs_env where
  "tgs_navigator_readonly = tgs_fine\<lparr>tgs_readonly := [''navigator'']\<rparr>"

text \<open>An outside where the static conversion succeeds, and one where ffmpeg fails.\<close>

definition static_fine :: static_env where
  "static_fine = \<lparr>static_download = Downloaded, static_ffmpeg = Exit0\<rparr>"

definition static_ffmpeg_fails :: static_env where
  "static_ffmpeg_fails = \<lparr>static_download = Downloaded, static_ffmpeg = ExitError True\<rparr>"

text \<open>An outside where the transport fails in the middle of the body of the image.\<close>

definition static_download_stalls :: static_env where
  "static_download_stalls = \<lparr>static_download = DownloadStalled, static_ffmpeg = Exit0\<rparr>"

text \<open>A cache directory of three artifacts, 150 bytes in all, for a budget of 100.\<close>

definition cache_example :: "artifact list" where
  "cache_example =
     [\<lparr>artifact_name = ''a.gif'', sizeBytes = 60, lastModifiedTime = 3\<rparr>,
      \<lparr>artifact_name = ''b.gif'', sizeBytes = 50, lastModifiedTime = 1\<rparr>,
      \<lparr>artifact_name = ''c.webp'', sizeBytes = 40, lastModifiedTime = 2\<rparr>]"

section \<open>Properties\<close>

subsection \<open>The file system operations\<close>

lemma dirs_log_call [simp]: "dirs (log_call e w) = dirs w"
  by (simp add: log_call_def)
lemma globals_log_call [simp]: "globals (log_call e w) = globals w"
  by (simp add: log_call_def)
lemma calls_log_call [simp]: "calls (log_call e w) = calls w @ [e]"
  by (simp add: log_call_def)

lemma dirs_mkdir_p:
  "dirs (mkdir_p d w) = (dirs w)(d := Some (case dirs w d of None \<Rightarrow> [] | Some es \<Rightarrow> es))"
  by (auto simp: mkdir_p_def split: option.splits)
lemma globals_mkdir_p [simp]: "globals (mkdir_p d w) = globals w"
  by (simp add: mkdir_p_def split: option.splits)
lemma calls_mkdir_p [simp]: "calls (mkdir_p d w) = calls w"
  by (simp add: mkdir_p_def split: option.splits)

lemma dirs_unlink_quiet:
  "dirs (unlink_quiet d n w) = (dirs w)(d := map_option (removeAll n) (dirs w d))"
  by (auto simp: unlink_quiet_def unlink_def split: option.splits)
lemma globals_unlink_quiet [simp]: "globals (unlink_quiet d n w) = globals w"
  by (simp add: unlink_quiet_def unlink_def split: option.splits)
lemma calls_unlink_quiet [simp]: "calls (unlink_quiet d n w) = calls w"
  by (simp add: unlink_quiet_def unlink_def split: option.splits)

lemma dirs_unlink_each:
  "dirs (unlink_each d fs w) = (dirs w)(d := map_option (filter (\<lambda>n. n \<notin> set fs)) (dirs w d))"
proof (induction fs arbitrary: w)
  case Nil
  show ?case by (simp add: option.map_ident)
next
  case (Cons f fs)
  have "filter (\<lambda>n. n \<notin> set fs) (removeAll f es) = filter (\<lambda>n. n \<notin> set (f # fs)) es" for es
    by (induction es) auto
  then show ?case
    by (auto simp: Cons.IH dirs_unlink_quiet option.map_comp comp_def fun_eq_iff simp del: set_simps)
qed
lemma globals_unlink_each [simp]: "globals (unlink_each d fs w) = globals w"
  by (induction fs arbitrary: w) simp_all
lemma calls_unlink_each [simp]: "calls (unlink_each d fs w) = calls w"
  by (induction fs arbitrary: w) simp_all

lemma dirs_rmdir_quiet:
  "dirs (rmdir_quiet d w) = (if dirs w d = Some [] then (dirs w)(d := None) else dirs w)"
  by (auto simp: rmdir_quiet_def rmdir_def split: option.splits list.splits)
lemma globals_rmdir_quiet [simp]: "globals (rmdir_quiet d w) = globals w"
  by (simp add: rmdir_quiet_def rmdir_def split: option.splits list.splits)
lemma calls_rmdir_quiet [simp]: "calls (rmdir_quiet d w) = calls w"
  by (simp add: rmdir_quiet_def rmdir_def split: option.splits list.splits)

lemma write_file_Some:
  "write_file d n w = Some w' \<Longrightarrow>
     (\<exists>es. dirs w d = Some es \<and> dirs w' = (dirs w)(d \<mapsto> List.insert n es))
     \<and> globals w' = globals w \<and> calls w' = calls w"
  by (auto simp: write_file_def split: option.splits)

lemma write_file_None: "write_file d n w = None \<longleftrightarrow> dirs w d = None"
  by (simp add: write_file_def split: option.splits)

lemma access_unlink_quiet:
  "access (unlink_quiet d n w) d' n' \<longleftrightarrow> access w d' n' \<and> \<not> (d = d' \<and> n = n')"
  by (auto simp: access_def dirs_unlink_quiet split: option.splits)

lemma access_unlink_each:
  "access (unlink_each d fs w) d' n' \<longleftrightarrow> access w d' n' \<and> \<not> (d = d' \<and> n' \<in> set fs)"
  by (auto simp: access_def dirs_unlink_each split: option.splits)

lemma access_rmdir_quiet [simp]: "access (rmdir_quiet d w) d' n' = access w d' n'"
  by (auto simp: access_def dirs_rmdir_quiet split: option.splits)

lemma access_mkdir_p [simp]: "access (mkdir_p d w) d' n' = access w d' n'"
  by (auto simp: access_def dirs_mkdir_p split: option.splits)

lemma access_mkdir_recursive [simp]: "access (mkdir_recursive d n w) d' n' = access w d' n'"
  by (simp add: mkdir_recursive_def)

lemma globals_mkdir_recursive [simp]: "globals (mkdir_recursive d n w) = globals w"
  by (simp add: mkdir_recursive_def)

lemma calls_mkdir_recursive [simp]: "calls (mkdir_recursive d n w) = calls w"
  by (simp add: mkdir_recursive_def)

lemma access_log_call [simp]: "access (log_call e w) d n = access w d n"
  by (simp add: access_def)

lemma access_write_file:
  "write_file d n w = Some w' \<Longrightarrow> access w' d' n' \<longleftrightarrow> access w d' n' \<or> (d = d' \<and> n = n')"
  by (auto simp: access_def write_file_def split: option.splits if_splits)

subsection \<open>A successful conversion leaves its artifact in the cache\<close>

lemma cacheDir_ne_tempDir: "cacheDir (new_handler p) \<noteq> tempDir (new_handler p)"
  by (simp add: new_handler_def path_join_def)

lemma cacheDir_ne_temp_sub: "cacheDir (new_handler p) \<noteq> path_join (tempDir (new_handler p)) n"
  by (simp add: new_handler_def path_join_def)

lemma exec_to_file_Inr:
  "exec_to_file outcome cmd d n w = (Inr u, w') \<Longrightarrow>
     outcome = Exit0 \<and> write_file d n (log_call (Exec cmd) w) = Some w'"
  by (auto simp: exec_to_file_def Let_def split: tool.splits option.splits)

lemma downloadFile_Inr:
  "downloadFile outcome url d n w = (Some (Inr u), w') \<Longrightarrow>
     outcome = Downloaded \<and> write_file d n (log_call (HttpGet url) w) = Some w'"
  by (auto simp: downloadFile_def Let_def split: download.splits option.splits if_splits)

lemma static_try_success:
  assumes "static_try h env url cn tn w = (Some (Inr p), w')" and "cacheDir h \<noteq> tempDir h"
  shows "p = path_join (cacheDir h) cn \<and> access w' (cacheDir h) cn"
  using assms
  by (auto simp: static_try_def Let_def access_unlink_quiet access_write_file
      split: prod.splits sum.splits option.splits dest!: exec_to_file_Inr)

lemma resizeStaticImage_success:
  assumes "resizeStaticImage md5 h env url w = (Some (Inr p), w')" and "cacheDir h \<noteq> tempDir h"
  shows "p = path_join (cacheDir h) (md5 url @ ''.webp'') \<and> access w' (cacheDir h) (md5 url @ ''.webp'')"
  using assms
  by (auto simp: resizeStaticImage_def Let_def generateHash_def
      split: prod.splits sum.splits option.splits if_splits dest!: static_try_success)

lemma webm_try_success:
  assumes "webm_try h env url hash w = (Some (Inr p), w')"
    and "cacheDir h \<noteq> tempDir h" and "cacheDir h \<noteq> path_join (tempDir h) (''webm_'' @ hash)"
  shows "p = path_join (cacheDir h) (hash @ ''.gif'') \<and> access w' (cacheDir h) (hash @ ''.gif'')"
  using assms
  by (auto simp: webm_try_def Let_def access_unlink_quiet access_unlink_each access_write_file
      split: prod.splits sum.splits option.splits dest!: exec_to_file_Inr)

lemma convertWebmToGif_success:
  assumes "convertWebmToGif md5 (new_handler r) env url fid w = (Some (Inr p), w')"
  shows "p = path_join (cacheDir (new_handler r)) (md5 (or_else fid url) @ ''.gif'')
       \<and> access w' (cacheDir (new_handler r)) (md5 (or_else fid url) @ ''.gif'')"
  using assms cacheDir_ne_tempDir [of r] cacheDir_ne_temp_sub [of r]
  by (auto simp: convertWebmToGif_def Let_def generateHash_def
      split: prod.splits sum.splits option.splits if_splits dest!: webm_try_success)

lemma access_delete_globals [simp]: "access (delete_globals w) d n = access w d n"
  by (simp add: access_def delete_globals_def)

lemma assign_globals_frame:
  "assign_globals readonly gs w = (r, w') \<Longrightarrow> dirs w' = dirs w \<and> calls w' = calls w"
  by (induction gs arbitrary: w) (auto split: if_splits)

lemma install_globals_access:
  "install_globals readonly w = (r, w') \<Longrightarrow> access w' d n = access w d n"
  by (auto simp: install_globals_def access_def dest!: assign_globals_frame)

lemma tgs_try_success:
  assumes "tgs_try h env url hash w = (Inr p, w')"
    and "cacheDir h \<noteq> path_join (tempDir h) (''tgs_'' @ hash)"
  shows "p = path_join (cacheDir h) (hash @ ''.gif'') \<and> access w' (cacheDir h) (hash @ ''.gif'')"
  using assms
  by (auto simp: tgs_try_def Let_def access_unlink_quiet access_unlink_each access_write_file
      split: prod.splits sum.splits option.splits payload.splits if_splits dest!: exec_to_file_Inr)

lemma convertTgsToGif_success:
  assumes "convertTgsToGif md5 (new_handler r) env url fid w = (Inr (Some p), w')"
  shows "p = path_join (cacheDir (new_handler r)) (md5 (or_else fid url) @ ''.gif'')
       \<and> access w' (cacheDir (new_handler r)) (md5 (or_else fid url) @ ''.gif'')"
  using assms cacheDir_ne_temp_sub [of r]
  by (auto simp: convertTgsToGif_def Let_def generateHash_def
      split: prod.splits sum.splits if_splits dest!: tgs_try_success)

subsection \<open>Evaluating the converters on the concrete inputs\<close>

lemmas fs_defs = new_handler_def path_join_def initDirs_def mkdir_p_def mkdir_recursive_def
      access_def
      downloadFile_def log_call_def write_file_def exec_to_dir_def exec_to_file_def
      readdir_def unlink_quiet_def unlink_def rmdir_quiet_def rmdir_def Let_def
      generateHash_def or_else_def md5_examples_def bot_handler_def fresh_world_def

lemma webm_fine_result:
  "fst (convertWebmToGif md5_examples bot_handler webm_fine ''https://example/file.webm''
         (Some ''abc123'') fresh_world)
   = Some (Inr ''/srv/bot/gif-cache/e99a18c428cb38d5f260853678922e03.gif'')"
  by (simp add: convertWebmToGif_def webm_try_def webm_fine_def fs_defs)

lemma tgs_fine_result:
  "fst (convertTgsToGif md5_examples bot_handler tgs_fine ''https://example/file.tgs''
         (Some ''abc123'') fresh_world)
   = Inr (Some ''/srv/bot/gif-cache/e99a18c428cb38d5f260853678922e03.gif'')"
  by (simp add: convertTgsToGif_def tgs_try_def tgs_fine_def fs_defs renderFrames.simps
      tgs_step_def native_rate_def math_round_def targetFps_def install_globals_def
      dom_globals_def delete_globals_def)


subsection \<open>Cache idempotence\<close>

text \<open>
  After a successful conversion, a second call for the same key returns the same cache
  path and leaves the world as it is: the cache probe succeeds, so nothing is
  downloaded and no external process is started (the list \<open>calls\<close> does not grow),
  whatever the outside would have done (\<open>env2\<close>). For the WebM and TGS converters the
  key is \<open>or_else fileId url\<close>, so the URL of the second call may differ when the same
  non-empty \<^verbatim>\<open>fileId\<close> is passed. The key of the static converter is its URL.
\<close>

lemma cache_hit_after_success:
  "(convertWebmToGif md5 (new_handler r) env url fid w = (Some (Inr p), w') \<longrightarrow>
      or_else fid2 url2 = or_else fid url \<longrightarrow>
      convertWebmToGif md5 (new_handler r) env2 url2 fid2 w' = (Some (Inr p), w'))
   \<and> (convertTgsToGif md5 (new_handler r) tenv url fid w = (Inr (Some p), w') \<longrightarrow>
      or_else fid2 url2 = or_else fid url \<longrightarrow>
      convertTgsToGif md5 (new_handler r) tenv2 url2 fid2 w' = (Inr (Some p), w'))
   \<and> (resizeStaticImage_call md5 (new_handler r) senv url fid w = (Some (Inr p), w') \<longrightarrow>
      resizeStaticImage_call md5 (new_handler r) senv2 url fid3 w' = (Some (Inr p), w'))"
proof (intro conjI impI)
  assume first: "convertWebmToGif md5 (new_handler r) env url fid w = (Some (Inr p), w')"
    and same: "or_else fid2 url2 = or_else fid url"
  from convertWebmToGif_success [OF first] same
  show "convertWebmToGif md5 (new_handler r) env2 url2 fid2 w' = (Some (Inr p), w')"
    by (simp add: convertWebmToGif_def generateHash_def)
next
  assume first: "convertTgsToGif md5 (new_handler r) tenv url fid w = (Inr (Some p), w')"
    and same: "or_else fid2 url2 = or_else fid url"
  from convertTgsToGif_success [OF first] same
  show "convertTgsToGif md5 (new_handler r) tenv2 url2 fid2 w' = (Inr (Some p), w')"
    by (simp add: convertTgsToGif_def generateHash_def)
next
  assume first: "resizeStaticImage_call md5 (new_handler r) senv url fid w = (Some (Inr p), w')"
  then have "resizeStaticImage md5 (new_handler r) senv url w = (Some (Inr p), w')"
    by (simp add: resizeStaticImage_call_def)
  from resizeStaticImage_success [OF this cacheDir_ne_tempDir]
  show "resizeStaticImage_call md5 (new_handler r) senv2 url fid3 w' = (Some (Inr p), w')"
    by (simp add: resizeStaticImage_call_def resizeStaticImage_def generateHash_def)
qed

text \<open>
  Claim C1 says that for a fixed stable identifier two calls of a converter return the
  same cache path and the second one downloads nothing and starts no process. The
  static converter breaks this when the URL of the sticker has rotated between the
  calls: it hashes the URL and drops the identifier. Here the picker's call with the
  identifier \<^verbatim>\<open>abc123\<close> is made twice on a fresh cache, first with the URL
  \<^verbatim>\<open>https://example/file.png\<close> and then with \<^verbatim>\<open>https://example/rotated.png\<close>: the two
  paths returned differ, and the second call has downloaded again and has run ffmpeg
  again (four outside calls in all, two of them by the second call).
\<close>

theorem static_second_call_converts_again:
  "fst (resizeStaticImage_call md5_examples (new_handler ''/srv/bot'') static_fine
          ''https://example/file.png'' (Some ''abc123'') fresh_world)
     = Some (Inr ''/srv/bot/gif-cache/d2a9a6630c9cf740bf0a56844d25bc81.webp'')
   \<and> fst (resizeStaticImage_call md5_examples (new_handler ''/srv/bot'') static_fine
          ''https://example/rotated.png'' (Some ''abc123'')
          (snd (resizeStaticImage_call md5_examples (new_handler ''/srv/bot'') static_fine
             ''https://example/file.png'' (Some ''abc123'') fresh_world)))
     = Some (Inr ''/srv/bot/gif-cache/44a748c47e23fbb491a3d6ea342be617.webp'')
   \<and> calls (snd (resizeStaticImage_call md5_examples (new_handler ''/srv/bot'') static_fine
          ''https://example/file.png'' (Some ''abc123'') fresh_world))
     = [HttpGet ''https://example/file.png'',
        Exec (resize_command ''/srv/bot/temp/d2a9a6630c9cf740bf0a56844d25bc81_orig.png''
                ''/srv/bot/gif-cache/d2a9a6630c9cf740bf0a56844d25bc81.webp'')]
   \<and> calls (snd (resizeStaticImage_call md5_examples (new_handler ''/srv/bot'') static_fine
          ''https://example/rotated.png'' (Some ''abc123'')
          (snd (resizeStaticImage_call md5_examples (new_handler ''/srv/bot'') static_fine
             ''https://example/file.png'' (Some ''abc123'') fresh_world))))
     = [HttpGet ''https://example/file.png'',
        Exec (resize_command ''/srv/bot/temp/d2a9a6630c9cf740bf0a56844d25bc81_orig.png''
                ''/srv/bot/gif-cache/d2a9a6630c9cf740bf0a56844d25bc81.webp''),
        HttpGet ''https://example/rotated.png'',
        Exec (resize_command ''/srv/bot/temp/44a748c47e23fbb491a3d6ea342be617_orig.png''
                ''/srv/bot/gif-cache/44a748c47e23fbb491a3d6ea342be617.webp'')]"
  by (simp add: resizeStaticImage_call_def resizeStaticImage_def static_try_def static_fine_def
      sniff_ext_def toLowerCase_def lower_char_def fs_defs)

subsection \<open>Downloads and tools: what they log and how they fail\<close>



lemma downloadFile_globals:
  "downloadFile outcome url d n w = (r, w1) \<Longrightarrow> globals w1 = globals w"
  by (auto simp: downloadFile_def Let_def write_file_def split: download.splits option.splits if_splits)

lemma exec_to_file_globals:
  "exec_to_file outcome cmd d n w = (r, w1) \<Longrightarrow> globals w1 = globals w"
  by (auto simp: exec_to_file_def Let_def write_file_def split: tool.splits option.splits if_splits)

lemma downloadFile_Inl:
  "downloadFile outcome url d n w = (Some (Inl e), w1) \<Longrightarrow> e = DownloadFailure"
  by (auto simp: downloadFile_def Let_def split: download.splits option.splits if_splits)

lemma downloadFile_rejected:
  "downloadFile (DownloadRejected b) url d n w = (r, w1) \<Longrightarrow> r = Some (Inl DownloadFailure)"
  by (auto simp: downloadFile_def Let_def split: download.splits option.splits if_splits)

lemma downloadFile_pending:
  "downloadFile outcome url d n w = (None, w1) \<Longrightarrow> outcome = DownloadStalled \<and> access w1 d n"
  by (auto simp: downloadFile_def Let_def access_write_file
      split: download.splits option.splits if_splits)

lemma downloadFile_settles:
  "downloadFile outcome url d n w = (r, w1) \<Longrightarrow> outcome \<noteq> DownloadStalled \<Longrightarrow> r \<noteq> None"
  by (auto simp: downloadFile_def Let_def split: download.splits option.splits if_splits)

lemma exec_to_file_error:
  "exec_to_file (ExitError b) cmd d n w = (r, w1) \<Longrightarrow> r = Inl ExternalToolFailure"
  by (auto simp: exec_to_file_def Let_def split: option.splits if_splits)

lemma exec_to_file_Inl:
  "exec_to_file outcome cmd d n w = (Inl e, w1) \<Longrightarrow> e = ExternalToolFailure"
  by (auto simp: exec_to_file_def Let_def split: tool.splits option.splits if_splits)

subsection \<open>The static converter\<close>


lemma static_try_outcomes:
  assumes "static_try h env url cn tn w = (r, w1)"
  shows "(\<forall>p. r = Some (Inr p) \<longrightarrow>
            static_download env = Downloaded \<and> static_ffmpeg env = Exit0
            \<and> \<not> access w1 (tempDir h) tn)
    \<and> (r = None \<longrightarrow> static_download env = DownloadStalled \<and> access w1 (tempDir h) tn)
    \<and> (static_download env \<noteq> DownloadStalled \<longrightarrow> r \<noteq> None)"
  using assms
  by (auto simp: static_try_def Let_def access_unlink_quiet
      split: prod.splits sum.splits option.splits
      dest!: exec_to_file_Inr downloadFile_Inr downloadFile_pending dest: downloadFile_settles)


lemma static_ffmpeg_fails_result:
  "fst (resizeStaticImage md5_examples (new_handler ''/srv/bot'') static_ffmpeg_fails
          ''https://example/file.png'' fresh_world) = Some (Inl ExternalToolFailure)"
  by (simp add: resizeStaticImage_def static_try_def static_ffmpeg_fails_def fs_defs)



text \<open>
  Whenever a call of the static converter on a cache miss returns or throws, its
  temporary download file is removed; every failure that is reported to it (a rejected
  download, a failing ffmpeg) is propagated to the caller (the result is \<open>Inl\<close>), and
  then the cache directory holds no entry for the key, also when ffmpeg had left a
  partial output; on success the artifact is in the cache. The call does return or
  throw unless the transport fails in the middle of the body.
\<close>

lemma static_cleanup_when_settled:
  assumes miss: "\<not> access w (cacheDir (new_handler parent)) (md5 imageUrl @ ''.webp'')"
    and run: "resizeStaticImage md5 (new_handler parent) env imageUrl w = (r, w')"
  shows "(r \<noteq> None \<longrightarrow>
          \<not> access w' (tempDir (new_handler parent))
               (md5 imageUrl @ ''_orig.'' @ sniff_ext imageUrl))
    \<and> (static_download env \<noteq> DownloadStalled \<longrightarrow> r \<noteq> None)
    \<and> (static_download env \<noteq> DownloadStalled \<longrightarrow>
          static_download env \<noteq> Downloaded \<or> static_ffmpeg env \<noteq> Exit0 \<longrightarrow>
          (\<exists>e. r = Some (Inl e)))
    \<and> ((\<exists>e. r = Some (Inl e)) \<longrightarrow>
          \<not> access w' (cacheDir (new_handler parent)) (md5 imageUrl @ ''.webp''))
    \<and> ((\<exists>p. r = Some (Inr p)) \<longrightarrow>
          access w' (cacheDir (new_handler parent)) (md5 imageUrl @ ''.webp''))"
proof -
  let ?h = "new_handler parent"
  let ?cn = "md5 imageUrl @ ''.webp''"
  let ?tn = "md5 imageUrl @ ''_orig.'' @ sniff_ext imageUrl"
  obtain r1 w1 where body: "static_try ?h env imageUrl ?cn ?tn w = (r1, w1)"
    by (cases "static_try ?h env imageUrl ?cn ?tn w")
  note outcomes = static_try_outcomes [OF body]
  show ?thesis
  proof (cases r1)
    case None
    with miss run body have r: "r = None"
      by (simp add: resizeStaticImage_def generateHash_def Let_def)
    from outcomes None show ?thesis
      by (simp add: r)
  next
    case (Some x)
    show ?thesis
    proof (cases x)
      case (Inl e)
      with Some miss run body have r: "r = Some (Inl e)"
        and w': "w' = unlink_quiet (cacheDir ?h) ?cn (unlink_quiet (tempDir ?h) ?tn w1)"
        by (simp_all add: resizeStaticImage_def generateHash_def Let_def)
      show ?thesis
        by (simp add: r w' access_unlink_quiet)
    next
      case (Inr p)
      with Some miss run body have r: "r = Some (Inr p)" and w': "w' = w1"
        by (simp_all add: resizeStaticImage_def generateHash_def Let_def)
      from outcomes Some Inr
      have ok: "static_download env = Downloaded \<and> static_ffmpeg env = Exit0"
        and gone: "\<not> access w1 (tempDir ?h) ?tn"
        by simp_all
      from static_try_success [OF body [unfolded Some Inr] cacheDir_ne_tempDir]
      have "access w1 (cacheDir ?h) ?cn" by simp
      with gone show ?thesis
        by (simp add: r w' ok)
    qed
  qed
qed

text \<open>
  Claim C9 says that the static converter removes its temporary download file on
  success and on failure, and propagates the error. It does not when the download
  fails in the middle of the body: \<^verbatim>\<open>downloadFile\<close> listens to the writer only, its
  promise never settles, the \<^verbatim>\<open>catch\<close> block of \<^verbatim>\<open>resizeStaticImage\<close> is never
  entered, and the partial file \<^verbatim>\<open><hash>_orig.png\<close> stays in the temp directory. At this
  input the call does not return (\<open>None\<close>) and the temporary file is there.
\<close>

theorem static_stalled_download_leaves_temp_file:
  "fst (resizeStaticImage md5_examples (new_handler ''/srv/bot'') static_download_stalls
          ''https://example/file.png'' fresh_world) = None
   \<and> dirs (snd (resizeStaticImage md5_examples (new_handler ''/srv/bot'') static_download_stalls
          ''https://example/file.png'' fresh_world)) ''/srv/bot/temp''
     = Some [''d2a9a6630c9cf740bf0a56844d25bc81_orig.png'']"
  by (simp add: resizeStaticImage_def static_try_def static_download_stalls_def
      sniff_ext_def toLowerCase_def lower_char_def fs_defs)



subsection \<open>The TGS converter: failures\<close>

lemma tgs_step_pos: "1 \<le> tgs_step a"
  by (simp add: tgs_step_def)

lemma renderFrames_frame:
  "renderFrames raster a T fd i n acc w = (r, w') \<Longrightarrow>
     globals w' = globals w \<and> calls w' = calls w \<and> (\<forall>d. d \<noteq> fd \<longrightarrow> dirs w' d = dirs w d)"
proof (induction raster a T fd i n acc w rule: renderFrames.induct)
  case (1 raster a T fd i n acc w)
  show ?case
  proof (cases "i < T \<and> raster i")
    case False
    with "1.prems" show ?thesis
      by (auto simp: renderFrames.simps [of raster a T fd i n acc w] split: if_splits)
  next
    case True
    show ?thesis
    proof (cases "write_file fd (frame_name n) w")
      case None
      with True "1.prems" show ?thesis
        by (simp add: renderFrames.simps [of raster a T fd i n acc w])
    next
      case (Some w1)
      with True "1.prems"
      have "renderFrames raster a T fd (i + tgs_step a) (n + 1) (acc @ [(i, frame_name n)]) w1
              = (r, w')"
        by (simp add: renderFrames.simps [of raster a T fd i n acc w])
      from "1.IH" [OF _ _ Some this] True
      have "globals w' = globals w1 \<and> calls w' = calls w1
          \<and> (\<forall>d. d \<noteq> fd \<longrightarrow> dirs w' d = dirs w1 d)"
        by simp
      with write_file_Some [OF Some] show ?thesis
        by auto
    qed
  qed
qed

lemma renderFrames_raster_failure:
  "\<not> raster (i + int k * tgs_step a) \<Longrightarrow> i + int k * tgs_step a < T \<Longrightarrow>
     \<exists>e w'. renderFrames raster a T fd i n acc w = (Inl e, w')"
proof (induction k arbitrary: i n acc w)
  case 0
  then show ?case
    by (simp add: renderFrames.simps [of raster a T fd i n acc w])
next
  case (Suc k)
  have "0 \<le> int k * tgs_step a"
    using tgs_step_pos [of a] by simp
  moreover have "i + int (Suc k) * tgs_step a = i + tgs_step a + int k * tgs_step a"
    by (simp add: algebra_simps)
  ultimately have lt: "i < T"
    using Suc.prems(2) tgs_step_pos [of a] by linarith
  show ?case
  proof (cases "raster i")
    case False
    with lt show ?thesis
      by (simp add: renderFrames.simps [of raster a T fd i n acc w])
  next
    case True
    show ?thesis
    proof (cases "write_file fd (frame_name n) w")
      case None
      with lt True show ?thesis
        by (simp add: renderFrames.simps [of raster a T fd i n acc w])
    next
      case (Some w1)
      have eq: "i + tgs_step a + int k * tgs_step a = i + int (Suc k) * tgs_step a"
        by (simp add: algebra_simps)
      from Suc.IH [of "i + tgs_step a" "n + 1" "acc @ [(i, frame_name n)]" w1] Suc.prems
      obtain e w' where
        "renderFrames raster a T fd (i + tgs_step a) (n + 1) (acc @ [(i, frame_name n)]) w1
           = (Inl e, w')"
        unfolding eq by blast
      with lt True Some show ?thesis
        by (simp add: renderFrames.simps [of raster a T fd i n acc w])
    qed
  qed
qed

text \<open>
  Each of these makes the \<^verbatim>\<open>try\<close> block throw: the download is rejected, the payload
  is not gzip or not JSON, the rendering context or the animation cannot be set up, a
  frame that the loop reaches cannot be rasterized, or gifski fails.
\<close>

lemma tgs_try_failure:
  assumes "tgs_response env = None \<or> tgs_response env = Some NotGzip
      \<or> tgs_response env = Some NotJson \<or> \<not> tgs_jsdom env \<or> tgs_anim env = None
      \<or> (\<exists>a T k. tgs_response env = Some (Lottie a) \<and> tgs_anim env = Some T
            \<and> int k * tgs_step a < T \<and> \<not> tgs_raster env (int k * tgs_step a))
      \<or> \<not> tgs_destroy env \<or> (\<exists>b. tgs_gifski env = ExitError b)"
  shows "\<exists>e w1. tgs_try h env url hash w = (Inl e, w1)"
proof (cases "tgs_try h env url hash w")
  case (Pair r w1)
  show ?thesis
  proof (cases r)
    case (Inl e)
    with Pair show ?thesis by simp
  next
    case (Inr p)
    with Pair have ok: "tgs_try h env url hash w = (Inr p, w1)" by simp
    then have "\<exists>a T w2 x w4. tgs_response env = Some (Lottie a) \<and> tgs_jsdom env
        \<and> tgs_anim env = Some T \<and> tgs_destroy env \<and> tgs_gifski env = Exit0
        \<and> renderFrames (tgs_raster env) a T (path_join (tempDir h) (''tgs_'' @ hash)) 0 0 []
              (mkdir_recursive (tempDir h) (''tgs_'' @ hash) w2) = (Inr x, w4)"
      by (auto simp: tgs_try_def Let_def
          split: option.splits payload.splits if_splits prod.splits sum.splits
          dest!: exec_to_file_Inr)
    then obtain a T w2 where resp: "tgs_response env = Some (Lottie a)" and jsdom: "tgs_jsdom env"
      and anim: "tgs_anim env = Some T" and destroy: "tgs_destroy env"
      and gifski: "tgs_gifski env = Exit0"
      and loop: "\<exists>x w4. renderFrames (tgs_raster env) a T
            (path_join (tempDir h) (''tgs_'' @ hash)) 0 0 []
            (mkdir_recursive (tempDir h) (''tgs_'' @ hash) w2) = (Inr x, w4)"
      by blast
    from assms resp jsdom anim destroy gifski
    obtain k where "int k * tgs_step a < T" and "\<not> tgs_raster env (int k * tgs_step a)"
      by auto
    from renderFrames_raster_failure [of "tgs_raster env" 0 k a T
        "path_join (tempDir h) (''tgs_'' @ hash)" 0 "[]"
        "mkdir_recursive (tempDir h) (''tgs_'' @ hash) w2"] this loop
    show ?thesis
      by auto
  qed
qed

lemma frames_dir_removed:
  "dirs (rmdir_quiet fd (unlink_each fd (case readdir fd w of None \<Rightarrow> [] | Some fs \<Rightarrow> fs) w)) fd
     = None"
  by (cases "dirs w fd") (simp_all add: dirs_rmdir_quiet dirs_unlink_each readdir_def)

lemma dirs_unlink_quiet_None: "dirs w d' = None \<Longrightarrow> dirs (unlink_quiet d n w) d' = None"
  by (auto simp: dirs_unlink_quiet)

lemma fresh_world_tgs_miss:
  "\<not> access fresh_world (cacheDir (new_handler ''/srv/bot''))
       (md5_examples (or_else (Some ''abc123'') ''https://example/file.tgs'') @ ''.gif'')"
  by (simp add: fs_defs)

text \<open>
  Claim C3. On a cache miss \<^verbatim>\<open>convertTgsToGif\<close> never propagates an error (its result is
  never \<open>Inl\<close>); every failure of the conversion (download error, payload that is not
  gzip or not JSON, failure to set up or rasterize, encoder failure) gives the result
  \<^verbatim>\<open>null\<close>; and whenever it returns \<^verbatim>\<open>null\<close> the frames directory of the workspace
  no longer exists and the cache holds no file for the key.
\<close>

theorem tgs_failure_returns_null:
  assumes miss: "\<not> access w (cacheDir h) (md5 (or_else fileId tgsUrl) @ ''.gif'')"
    and run: "convertTgsToGif md5 h env tgsUrl fileId w = (r, w')"
  shows "(\<exists>x. r = Inr x)
    \<and> (tgs_response env = None \<or> tgs_response env = Some NotGzip
        \<or> tgs_response env = Some NotJson \<or> \<not> tgs_jsdom env \<or> tgs_anim env = None
        \<or> (\<exists>a T k. tgs_response env = Some (Lottie a) \<and> tgs_anim env = Some T
              \<and> int k * tgs_step a < T \<and> \<not> tgs_raster env (int k * tgs_step a))
        \<or> \<not> tgs_destroy env \<or> (\<exists>b. tgs_gifski env = ExitError b)
        \<longrightarrow> r = Inr None)
    \<and> (r = Inr None \<longrightarrow>
          dirs w' (path_join (tempDir h) (''tgs_'' @ md5 (or_else fileId tgsUrl))) = None
          \<and> \<not> access w' (cacheDir h) (md5 (or_else fileId tgsUrl) @ ''.gif''))"
proof -
  let ?hash = "md5 (or_else fileId tgsUrl)"
  let ?fd = "path_join (tempDir h) (''tgs_'' @ ?hash)"
  obtain r1 w1 where body: "tgs_try h env tgsUrl ?hash w = (r1, w1)"
    by (cases "tgs_try h env tgsUrl ?hash w")
  show ?thesis
  proof (cases r1)
    case (Inl e)
    with miss run body have r: "r = Inr None"
      and w': "w' = unlink_quiet (cacheDir h) (?hash @ ''.gif'')
           (rmdir_quiet ?fd
             (unlink_each ?fd (case readdir ?fd w1 of None \<Rightarrow> [] | Some fs \<Rightarrow> fs) w1))"
      by (simp_all add: convertTgsToGif_def generateHash_def Let_def)
    show ?thesis
      by (simp add: r w' access_unlink_quiet dirs_unlink_quiet_None frames_dir_removed)
  next
    case (Inr p)
    with miss run body have r: "r = Inr (Some p)"
      by (simp_all add: convertTgsToGif_def generateHash_def Let_def)
    have "\<not> (tgs_response env = None \<or> tgs_response env = Some NotGzip
        \<or> tgs_response env = Some NotJson \<or> \<not> tgs_jsdom env \<or> tgs_anim env = None
        \<or> (\<exists>a T k. tgs_response env = Some (Lottie a) \<and> tgs_anim env = Some T
              \<and> int k * tgs_step a < T \<and> \<not> tgs_raster env (int k * tgs_step a))
        \<or> \<not> tgs_destroy env \<or> (\<exists>b. tgs_gifski env = ExitError b))"
    proof
      assume "tgs_response env = None \<or> tgs_response env = Some NotGzip
        \<or> tgs_response env = Some NotJson \<or> \<not> tgs_jsdom env \<or> tgs_anim env = None
        \<or> (\<exists>a T k. tgs_response env = Some (Lottie a) \<and> tgs_anim env = Some T
              \<and> int k * tgs_step a < T \<and> \<not> tgs_raster env (int k * tgs_step a))
        \<or> \<not> tgs_destroy env \<or> (\<exists>b. tgs_gifski env = ExitError b)"
      from tgs_try_failure [OF this, of h tgsUrl ?hash w] body Inr
      show False by simp
    qed
    then show ?thesis
      by (simp add: r)
  qed
qed

theorem tgs_failure_returns_null_witness:
  "\<not> access fresh_world (cacheDir (new_handler ''/srv/bot''))
       (md5_examples (or_else (Some ''abc123'') ''https://example/file.tgs'') @ ''.gif'')
   \<and> (\<exists>w'. convertTgsToGif md5_examples (new_handler ''/srv/bot'') tgs_not_gzip
             ''https://example/file.tgs'' (Some ''abc123'') fresh_world = (Inr None, w')
         \<and> dirs w' ''/srv/bot/temp/tgs_e99a18c428cb38d5f260853678922e03'' = None
         \<and> \<not> access w' ''/srv/bot/gif-cache'' ''e99a18c428cb38d5f260853678922e03.gif'')
   \<and> (\<exists>w'. convertTgsToGif md5_examples (new_handler ''/srv/bot'') tgs_gifski_fails
             ''https://example/file.tgs'' (Some ''abc123'') fresh_world = (Inr None, w')
         \<and> dirs w' ''/srv/bot/temp/tgs_e99a18c428cb38d5f260853678922e03'' = None
         \<and> \<not> access w' ''/srv/bot/gif-cache'' ''e99a18c428cb38d5f260853678922e03.gif'')"
proof (intro conjI)
  show miss: "\<not> access fresh_world (cacheDir (new_handler ''/srv/bot''))
       (md5_examples (or_else (Some ''abc123'') ''https://example/file.tgs'') @ ''.gif'')"
    by (rule fresh_world_tgs_miss)
  have names: "md5_examples (or_else (Some ''abc123'') ''https://example/file.tgs'')
      = ''e99a18c428cb38d5f260853678922e03''"
    "cacheDir (new_handler ''/srv/bot'') = ''/srv/bot/gif-cache''"
    "path_join (tempDir (new_handler ''/srv/bot'')) ''tgs_e99a18c428cb38d5f260853678922e03''
      = ''/srv/bot/temp/tgs_e99a18c428cb38d5f260853678922e03''"
    by (simp_all add: fs_defs)
  obtain r1 w1 where run1: "convertTgsToGif md5_examples (new_handler ''/srv/bot'') tgs_not_gzip
             ''https://example/file.tgs'' (Some ''abc123'') fresh_world = (r1, w1)"
    by (cases "convertTgsToGif md5_examples (new_handler ''/srv/bot'') tgs_not_gzip
             ''https://example/file.tgs'' (Some ''abc123'') fresh_world")
  have "tgs_response tgs_not_gzip = Some NotGzip"
    by (simp add: tgs_not_gzip_def)
  with tgs_failure_returns_null [OF miss run1] run1
  show "\<exists>w'. convertTgsToGif md5_examples (new_handler ''/srv/bot'') tgs_not_gzip
             ''https://example/file.tgs'' (Some ''abc123'') fresh_world = (Inr None, w')
         \<and> dirs w' ''/srv/bot/temp/tgs_e99a18c428cb38d5f260853678922e03'' = None
         \<and> \<not> access w' ''/srv/bot/gif-cache'' ''e99a18c428cb38d5f260853678922e03.gif''"
    by (simp add: names)
  obtain r2 w2 where run2: "convertTgsToGif md5_examples (new_handler ''/srv/bot'') tgs_gifski_fails
             ''https://example/file.tgs'' (Some ''abc123'') fresh_world = (r2, w2)"
    by (cases "convertTgsToGif md5_examples (new_handler ''/srv/bot'') tgs_gifski_fails
             ''https://example/file.tgs'' (Some ''abc123'') fresh_world")
  have "\<exists>b. tgs_gifski tgs_gifski_fails = ExitError b"
    by (auto simp: tgs_gifski_fails_def tgs_fine_def)
  with tgs_failure_returns_null [OF miss run2] run2
  show "\<exists>w'. convertTgsToGif md5_examples (new_handler ''/srv/bot'') tgs_gifski_fails
             ''https://example/file.tgs'' (Some ''abc123'') fresh_world = (Inr None, w')
         \<and> dirs w' ''/srv/bot/temp/tgs_e99a18c428cb38d5f260853678922e03'' = None
         \<and> \<not> access w' ''/srv/bot/gif-cache'' ''e99a18c428cb38d5f260853678922e03.gif''"
    by (auto simp: names)
qed

subsection \<open>The TGS converter: the bindings on the global object\<close>

lemma assign_globals_globals:
  "assign_globals readonly gs w = (r, w') \<Longrightarrow>
     set (globals w') = set (globals w) \<union> set (takeWhile (\<lambda>g. g \<notin> set readonly) gs)
     \<and> ((\<exists>u. r = Inr u) \<longleftrightarrow> set readonly \<inter> set gs = {})"
proof (induction gs arbitrary: w)
  case Nil
  then show ?case by auto
next
  case (Cons g gs)
  show ?case
  proof (cases "g \<in> set readonly")
    case True
    with Cons.prems show ?thesis by auto
  next
    case False
    with Cons.prems
    have "assign_globals readonly gs (w\<lparr>globals := List.insert g (globals w)\<rparr>) = (r, w')"
      by simp
    from Cons.IH [OF this] False show ?thesis by auto
  qed
qed

lemma globals_install:
  "install_globals readonly w = (r, w') \<Longrightarrow>
     set (globals w') = set (globals w) \<union> set (takeWhile (\<lambda>g. g \<notin> set readonly) dom_globals)
     \<and> ((\<exists>u. r = Inr u) \<longleftrightarrow> set readonly \<inter> set dom_globals = {})"
  unfolding install_globals_def by (rule assign_globals_globals)

lemma takeWhile_all: "set readonly \<inter> set gs = {} \<Longrightarrow> takeWhile (\<lambda>g. g \<notin> set readonly) gs = gs"
  by (induction gs) auto

lemma globals_delete: "set (globals (delete_globals w)) = set (globals w) - set dom_globals"
  by (auto simp: delete_globals_def)

text \<open>
  What the \<^verbatim>\<open>try\<close> block leaves on the global object. When it throws after the payload
  is parsed and the DOM is built, the names assigned up to the failure are bound: all
  five when the installation went through, the ones before the first name that cannot
  be assigned otherwise.
\<close>

lemma tgs_try_globals:
  assumes "tgs_try h env url hash w = (r, w1)"
  shows "(\<forall>p. r = Inr p \<longrightarrow> set (globals w1) = set (globals w) - set dom_globals)
    \<and> ((\<exists>e. r = Inl e) \<longrightarrow> (\<exists>a. tgs_response env = Some (Lottie a)) \<longrightarrow> tgs_jsdom env \<longrightarrow>
          set (globals w1)
            = set (globals w) \<union> set (takeWhile (\<lambda>g. g \<notin> set (tgs_readonly env)) dom_globals))
    \<and> ((\<exists>e. r = Inl e) \<longrightarrow> \<not> ((\<exists>a. tgs_response env = Some (Lottie a)) \<and> tgs_jsdom env) \<longrightarrow>
          globals w1 = globals w)"
proof (cases "(\<exists>a. tgs_response env = Some (Lottie a)) \<and> tgs_jsdom env")
  case False
  with assms show ?thesis
    by (auto simp: tgs_try_def Let_def split: option.splits payload.splits if_splits)
next
  case True
  then obtain a where resp: "tgs_response env = Some (Lottie a)" and jsdom: "tgs_jsdom env"
    by blast
  obtain ri w2 where inst: "install_globals (tgs_readonly env) (log_call (HttpGet url) w) = (ri, w2)"
    by (cases "install_globals (tgs_readonly env) (log_call (HttpGet url) w)")
  note g2 = globals_install [OF inst]
  show ?thesis
  proof (cases ri)
    case (Inl e)
    with assms resp jsdom inst have "r = Inl e" and "w1 = w2"
      by (simp_all add: tgs_try_def Let_def)
    with g2 True show ?thesis by simp
  next
    case (Inr u)
    with g2 have none: "set (tgs_readonly env) \<inter> set dom_globals = {}" by blast
    have tw: "takeWhile (\<lambda>g. g \<notin> set (tgs_readonly env)) dom_globals = dom_globals"
      by (rule takeWhile_all [OF none])
    from g2 have all: "set (globals w2) = set (globals w) \<union> set dom_globals"
      unfolding tw by simp
    from assms resp jsdom inst Inr
    have "(\<forall>p. r = Inr p \<longrightarrow> set (globals w1) = set (globals w2) - set dom_globals)
        \<and> ((\<exists>e. r = Inl e) \<longrightarrow> set (globals w1) = set (globals w2))"
      by (auto simp: tgs_try_def Let_def globals_delete
          split: option.splits if_splits prod.splits sum.splits
          dest!: renderFrames_frame exec_to_file_globals)
    with True show ?thesis
      unfolding tw all by auto
  qed
qed

lemma tgs_fine_simps:
  "tgs_response tgs_fine = Some (Lottie \<lparr>fr = Some 60\<rparr>)"
  "tgs_jsdom tgs_fine" "tgs_readonly tgs_fine = []" "tgs_anim tgs_fine = Some 3"
  "tgs_raster tgs_fine = (\<lambda>i. True)" "tgs_destroy tgs_fine"
  "tgs_gifski tgs_fine = Exit0"
  by (simp_all add: tgs_fine_def)

lemma tgs_gifski_fails_simps:
  "tgs_response tgs_gifski_fails = Some (Lottie \<lparr>fr = Some 60\<rparr>)"
  "tgs_jsdom tgs_gifski_fails" "tgs_readonly tgs_gifski_fails = []"
  "tgs_anim tgs_gifski_fails = Some 3"
  "tgs_raster tgs_gifski_fails = (\<lambda>i. True)" "tgs_destroy tgs_gifski_fails"
  "tgs_gifski tgs_gifski_fails = ExitError True"
  by (simp_all add: tgs_gifski_fails_def tgs_fine_def)

lemma tgs_navigator_readonly_simps:
  "tgs_response tgs_navigator_readonly = Some (Lottie \<lparr>fr = Some 60\<rparr>)"
  "tgs_jsdom tgs_navigator_readonly" "tgs_readonly tgs_navigator_readonly = [''navigator'']"
  by (simp_all add: tgs_navigator_readonly_def tgs_fine_def)

lemma tgs_step_60: "tgs_step \<lparr>fr = Some 60\<rparr> = 1"
  by (simp add: tgs_step_def native_rate_def math_round_def targetFps_def)

lemma tgs_gifski_fails_result:
  "fst (convertTgsToGif md5_examples (new_handler ''/srv/bot'') tgs_gifski_fails
         ''https://example/file.tgs'' (Some ''abc123'') fresh_world) = Inr None"
  by (simp add: convertTgsToGif_def tgs_try_def tgs_gifski_fails_simps fs_defs
      renderFrames.simps tgs_step_60 install_globals_def dom_globals_def delete_globals_def)

lemma tgs_navigator_readonly_result:
  "fst (convertTgsToGif md5_examples (new_handler ''/srv/bot'') tgs_navigator_readonly
         ''https://example/file.tgs'' (Some ''abc123'') fresh_world) = Inr None"
  by (simp add: convertTgsToGif_def tgs_try_def tgs_navigator_readonly_simps fs_defs
      install_globals_def dom_globals_def)

lemma fresh_world_globals: "globals fresh_world = []"
  by (simp add: fs_defs)

text \<open>
  Claim C10. On a cache miss the TGS converter assigns \<^verbatim>\<open>window\<close>, \<^verbatim>\<open>document\<close>,
  \<^verbatim>\<open>navigator\<close>, \<^verbatim>\<open>requestAnimationFrame\<close> and \<^verbatim>\<open>cancelAnimationFrame\<close> on the global
  object, one after the other, once the payload is parsed and the DOM is built. They
  are deleted on the success path only: after a successful conversion none of them is
  bound. When the converter returns \<^verbatim>\<open>null\<close> after a failure that follows the
  installation (all five assignments went through), all five are still bound. When an
  assignment itself throws, as the one to \<^verbatim>\<open>navigator\<close> does on a runtime that defines it
  read-only, the names assigned before it are still bound. When the converter fails
  before the installation, the global object is as it was.
\<close>

theorem tgs_globals_remain_after_failure:
  assumes miss: "\<not> access w (cacheDir h) (md5 (or_else fileId tgsUrl) @ ''.gif'')"
    and run: "convertTgsToGif md5 h env tgsUrl fileId w = (r, w')"
  shows "(\<forall>p. r = Inr (Some p) \<longrightarrow> set (globals w') \<inter> set dom_globals = {})
    \<and> (r = Inr None \<longrightarrow> (\<exists>a. tgs_response env = Some (Lottie a)) \<longrightarrow> tgs_jsdom env \<longrightarrow>
          set (tgs_readonly env) \<inter> set dom_globals = {} \<longrightarrow>
          {''window'', ''document'', ''navigator'', ''requestAnimationFrame'',
           ''cancelAnimationFrame''} \<subseteq> set (globals w'))
    \<and> (r = Inr None \<longrightarrow> (\<exists>a. tgs_response env = Some (Lottie a)) \<longrightarrow> tgs_jsdom env \<longrightarrow>
          set (globals w')
            = set (globals w) \<union> set (takeWhile (\<lambda>g. g \<notin> set (tgs_readonly env)) dom_globals))
    \<and> (r = Inr None \<longrightarrow> \<not> ((\<exists>a. tgs_response env = Some (Lottie a)) \<and> tgs_jsdom env) \<longrightarrow>
          globals w' = globals w)"
proof -
  let ?hash = "md5 (or_else fileId tgsUrl)"
  let ?fd = "path_join (tempDir h) (''tgs_'' @ ?hash)"
  obtain r1 w1 where body: "tgs_try h env tgsUrl ?hash w = (r1, w1)"
    by (cases "tgs_try h env tgsUrl ?hash w")
  show ?thesis
  proof (cases r1)
    case (Inl e)
    with miss run body have r: "r = Inr None"
      and w': "w' = unlink_quiet (cacheDir h) (?hash @ ''.gif'')
           (rmdir_quiet ?fd
             (unlink_each ?fd (case readdir ?fd w1 of None \<Rightarrow> [] | Some fs \<Rightarrow> fs) w1))"
      by (simp_all add: convertTgsToGif_def generateHash_def Let_def)
    have g: "globals w' = globals w1"
      by (simp add: w')
    have five: "{''window'', ''document'', ''navigator'', ''requestAnimationFrame'',
        ''cancelAnimationFrame''} = set dom_globals"
      by (simp add: dom_globals_def)
    from tgs_try_globals [OF body] Inl show ?thesis
      unfolding five by (auto simp: r g takeWhile_all)
  next
    case (Inr p)
    with miss run body have r: "r = Inr (Some p)" and w': "w' = w1"
      by (simp_all add: convertTgsToGif_def generateHash_def Let_def)
    from tgs_try_globals [OF body] Inr show ?thesis
      by (auto simp: r w')
  qed
qed

theorem tgs_globals_remain_after_failure_witness:
  "\<not> access fresh_world (cacheDir (new_handler ''/srv/bot''))
       (md5_examples (or_else (Some ''abc123'') ''https://example/file.tgs'') @ ''.gif'')
   \<and> (\<exists>w'. convertTgsToGif md5_examples (new_handler ''/srv/bot'') tgs_gifski_fails
             ''https://example/file.tgs'' (Some ''abc123'') fresh_world = (Inr None, w')
         \<and> {''window'', ''document'', ''navigator'', ''requestAnimationFrame'',
             ''cancelAnimationFrame''} \<subseteq> set (globals w'))
   \<and> (\<exists>p w'. convertTgsToGif md5_examples (new_handler ''/srv/bot'') tgs_fine
             ''https://example/file.tgs'' (Some ''abc123'') fresh_world = (Inr (Some p), w')
         \<and> set (globals w') \<inter> set dom_globals = {})
   \<and> (\<exists>w'. convertTgsToGif md5_examples (new_handler ''/srv/bot'') tgs_navigator_readonly
             ''https://example/file.tgs'' (Some ''abc123'') fresh_world = (Inr None, w')
         \<and> set (globals w') = {''window'', ''document''})"
proof (intro conjI)
  show miss: "\<not> access fresh_world (cacheDir (new_handler ''/srv/bot''))
       (md5_examples (or_else (Some ''abc123'') ''https://example/file.tgs'') @ ''.gif'')"
    by (rule fresh_world_tgs_miss)
  obtain w1 where failing: "convertTgsToGif md5_examples (new_handler ''/srv/bot'')
      tgs_gifski_fails ''https://example/file.tgs'' (Some ''abc123'') fresh_world = (Inr None, w1)"
    using tgs_gifski_fails_result by (simp add: prod_eq_iff)
  have installed: "\<exists>a. tgs_response tgs_gifski_fails = Some (Lottie a)"
    "tgs_jsdom tgs_gifski_fails" "set (tgs_readonly tgs_gifski_fails) \<inter> set dom_globals = {}"
    by (simp_all add: tgs_gifski_fails_simps)
  have "{''window'', ''document'', ''navigator'', ''requestAnimationFrame'',
         ''cancelAnimationFrame''} \<subseteq> set (globals w1)"
    by (rule tgs_globals_remain_after_failure [OF miss failing, THEN conjunct2, THEN conjunct1,
          rule_format, OF refl installed])
  with failing
  show "\<exists>w'. convertTgsToGif md5_examples (new_handler ''/srv/bot'') tgs_gifski_fails
             ''https://example/file.tgs'' (Some ''abc123'') fresh_world = (Inr None, w')
         \<and> {''window'', ''document'', ''navigator'', ''requestAnimationFrame'',
             ''cancelAnimationFrame''} \<subseteq> set (globals w')"
    by (intro exI conjI)
  obtain w2 where fine: "convertTgsToGif md5_examples (new_handler ''/srv/bot'') tgs_fine
      ''https://example/file.tgs'' (Some ''abc123'') fresh_world
      = (Inr (Some ''/srv/bot/gif-cache/e99a18c428cb38d5f260853678922e03.gif''), w2)"
    using tgs_fine_result by (simp add: prod_eq_iff bot_handler_def)
  have "set (globals w2) \<inter> set dom_globals = {}"
    by (rule tgs_globals_remain_after_failure [OF miss fine, THEN conjunct1, rule_format, OF refl])
  with fine
  show "\<exists>p w'. convertTgsToGif md5_examples (new_handler ''/srv/bot'') tgs_fine
             ''https://example/file.tgs'' (Some ''abc123'') fresh_world = (Inr (Some p), w')
         \<and> set (globals w') \<inter> set dom_globals = {}"
    by (intro exI conjI)
  obtain w3 where partial: "convertTgsToGif md5_examples (new_handler ''/srv/bot'')
      tgs_navigator_readonly ''https://example/file.tgs'' (Some ''abc123'') fresh_world
      = (Inr None, w3)"
    using tgs_navigator_readonly_result by (simp add: prod_eq_iff)
  have built: "\<exists>a. tgs_response tgs_navigator_readonly = Some (Lottie a)"
    "tgs_jsdom tgs_navigator_readonly"
    by (simp_all add: tgs_navigator_readonly_simps)
  have "set (globals w3) = set (globals fresh_world)
      \<union> set (takeWhile (\<lambda>g. g \<notin> set (tgs_readonly tgs_navigator_readonly)) dom_globals)"
    by (rule tgs_globals_remain_after_failure [OF miss partial, THEN conjunct2, THEN conjunct2,
          THEN conjunct1, rule_format, OF refl built])
  then have "set (globals w3) = {''window'', ''document''}"
    by (simp add: fresh_world_globals tgs_navigator_readonly_simps dom_globals_def insert_commute)
  with partial
  show "\<exists>w'. convertTgsToGif md5_examples (new_handler ''/srv/bot'') tgs_navigator_readonly
             ''https://example/file.tgs'' (Some ''abc123'') fresh_world = (Inr None, w')
         \<and> set (globals w') = {''window'', ''document''}"
    by (intro exI conjI)
qed

subsection \<open>The WebM converter: what a failure leaves behind\<close>

text \<open>
  The \<^verbatim>\<open>catch\<close> block of \<^verbatim>\<open>convertWebmToGif\<close> removes the downloaded source and the
  partial GIF.
\<close>

lemma webm_failure_removes_source_and_gif:
  assumes miss: "\<not> access w (cacheDir h) (md5 (or_else fileId webmUrl) @ ''.gif'')"
    and run: "convertWebmToGif md5 h env webmUrl fileId w = (Some (Inl e), w')"
  shows "\<not> access w' (tempDir h) (md5 (or_else fileId webmUrl) @ ''.webm'')
       \<and> \<not> access w' (cacheDir h) (md5 (or_else fileId webmUrl) @ ''.gif'')"
  using assms
  by (auto simp: convertWebmToGif_def generateHash_def Let_def access_unlink_quiet
      split: prod.splits sum.splits option.splits)

text \<open>
  It does not remove the frames directory: whenever the download has succeeded and
  ffmpeg or gifski fails, the call ends with an error and the directory
  \<^verbatim>\<open><tempDir>/webm_<hash>\<close> still exists.
\<close>

lemma dirs_write_each_Some: "dirs w d \<noteq> None \<Longrightarrow> dirs (write_each d' ns w) d \<noteq> None"
  by (induction ns arbitrary: w) (auto simp: write_file_def split: option.splits)

lemma downloadFile_keeps_dirs:
  "downloadFile outcome url d n w = (r, w1) \<Longrightarrow> dirs w d' \<noteq> None \<Longrightarrow> dirs w1 d' \<noteq> None"
  by (auto simp: downloadFile_def Let_def write_file_def
      split: download.splits option.splits if_splits)

lemma exec_to_file_keeps_dirs:
  "exec_to_file outcome cmd d n w = (r, w1) \<Longrightarrow> dirs w d' \<noteq> None \<Longrightarrow> dirs w1 d' \<noteq> None"
  by (auto simp: exec_to_file_def Let_def write_file_def
      split: tool.splits option.splits if_splits)

lemma dirs_mkdir_recursive: "dirs (mkdir_recursive d n w) (path_join d n) \<noteq> None"
  by (simp add: mkdir_recursive_def dirs_mkdir_p)

lemma path_join_ne: "path_join d n \<noteq> d"
  by (simp add: path_join_def)

lemma dirs_unlink_quiet_other: "d' \<noteq> d \<Longrightarrow> dirs (unlink_quiet d n w) d' = dirs w d'"
  by (simp add: dirs_unlink_quiet)

lemma webm_failure_keeps_frames_dir:
  assumes miss: "\<not> access w (cacheDir (new_handler parent)) (md5 (or_else fileId webmUrl) @ ''.gif'')"
    and run: "convertWebmToGif md5 (new_handler parent) env webmUrl fileId w = (r, w')"
    and downloaded: "webm_download env = Downloaded" "dirs w (tempDir (new_handler parent)) \<noteq> None"
    and failure: "\<not> snd (webm_ffmpeg env) \<or> webm_gifski env \<noteq> Exit0"
  shows "(\<exists>e. r = Some (Inl e))
    \<and> dirs w' (path_join (tempDir (new_handler parent)) (''webm_'' @ md5 (or_else fileId webmUrl)))
          \<noteq> None"
proof -
  let ?h = "new_handler parent"
  let ?hash = "md5 (or_else fileId webmUrl)"
  let ?fd = "path_join (tempDir ?h) (''webm_'' @ ?hash)"
  obtain w1 where dl: "downloadFile Downloaded webmUrl (tempDir ?h) (?hash @ ''.webm'') w = (Some (Inr ()), w1)"
    using downloaded(2) by (auto simp: downloadFile_def Let_def write_file_def split: option.splits)
  let ?w2 = "mkdir_recursive (tempDir ?h) (''webm_'' @ ?hash) w1"
  obtain r3 w3 where ex: "exec_to_dir (webm_ffmpeg env)
      (extract_command (path_join (tempDir ?h) (?hash @ ''.webm'')) ?fd) ?fd ?w2 = (r3, w3)"
    by (cases "exec_to_dir (webm_ffmpeg env)
      (extract_command (path_join (tempDir ?h) (?hash @ ''.webm'')) ?fd) ?fd ?w2")
  have "w3 = write_each ?fd (fst (webm_ffmpeg env))
      (log_call (Exec (extract_command (path_join (tempDir ?h) (?hash @ ''.webm'')) ?fd)) ?w2)"
    using ex by (auto simp: exec_to_dir_def Let_def split: if_splits)
  moreover have "dirs (log_call (Exec (extract_command
      (path_join (tempDir ?h) (?hash @ ''.webm'')) ?fd)) ?w2) ?fd \<noteq> None"
    using dirs_mkdir_recursive [of "tempDir ?h" "''webm_'' @ ?hash" w1] by simp
  ultimately have d3: "dirs w3 ?fd \<noteq> None"
    by (simp only: dirs_write_each_Some not_False_eq_True)
  have fd_temp: "?fd \<noteq> tempDir ?h" by (rule path_join_ne)
  have fd_cache: "?fd \<noteq> cacheDir ?h" using cacheDir_ne_temp_sub [of parent] by metis
  obtain r1 w4 where body: "webm_try ?h env webmUrl ?hash w = (r1, w4)"
    by (cases "webm_try ?h env webmUrl ?hash w")
  have "(\<exists>e. r1 = Some (Inl e)) \<and> dirs w4 ?fd \<noteq> None"
  proof (cases "snd (webm_ffmpeg env)")
    case False
    with body dl ex downloaded(1) d3 show ?thesis
      by (auto simp: webm_try_def Let_def exec_to_dir_def split: if_splits)
  next
    case True
    with failure obtain b where gf: "webm_gifski env = ExitError b"
      by (cases "webm_gifski env") auto
    from True ex have r3: "r3 = Inr ()"
      by (auto simp: exec_to_dir_def Let_def)
    obtain r5 w5 where enc: "exec_to_file (ExitError b)
        (gifski_command 50 (path_join (cacheDir ?h) (?hash @ ''.gif'')) ?fd)
        (cacheDir ?h) (?hash @ ''.gif'') w3 = (r5, w5)"
      by (cases "exec_to_file (ExitError b)
        (gifski_command 50 (path_join (cacheDir ?h) (?hash @ ''.gif'')) ?fd)
        (cacheDir ?h) (?hash @ ''.gif'') w3")
    from exec_to_file_error [OF enc] exec_to_file_keeps_dirs [OF enc d3]
    have "r5 = Inl ExternalToolFailure" and "dirs w5 ?fd \<noteq> None" by simp_all
    with body dl ex r3 enc gf downloaded(1) show ?thesis
      by (auto simp: webm_try_def Let_def)
  qed
  then obtain e where "r1 = Some (Inl e)" and d4: "dirs w4 ?fd \<noteq> None" by blast
  with miss run body have "r = Some (Inl e)"
    and "w' = unlink_quiet (cacheDir ?h) (?hash @ ''.gif'')
            (unlink_quiet (tempDir ?h) (?hash @ ''.webm'') w4)"
    by (simp_all add: convertWebmToGif_def generateHash_def Let_def)
  with d4 fd_temp fd_cache show ?thesis
    by (simp add: dirs_unlink_quiet_other)
qed

text \<open>
  Claim C4 says that after every failed WebM conversion the workspace holds no residual
  file: the downloaded source and the frames directory with its frames are removed, as
  is a partial cache file. The \<^verbatim>\<open>catch\<close> block does not remove the frames directory
  (it cannot name it). At this input, where ffmpeg writes two frames and gifski then
  fails, the call ends with the error and the frames directory still holds both frames.
\<close>

theorem webm_failure_leaves_frames:
  "fst (convertWebmToGif md5_examples (new_handler ''/srv/bot'') webm_gifski_fails
          ''https://example/file.webm'' (Some ''abc123'') fresh_world)
     = Some (Inl ExternalToolFailure)
   \<and> dirs (snd (convertWebmToGif md5_examples (new_handler ''/srv/bot'') webm_gifski_fails
          ''https://example/file.webm'' (Some ''abc123'') fresh_world))
        ''/srv/bot/temp/webm_e99a18c428cb38d5f260853678922e03''
     = Some [''frame_0002.png'', ''frame_0001.png'']"
  by (simp add: convertWebmToGif_def webm_try_def webm_gifski_fails_def fs_defs)

subsection \<open>The cache key and the name of the artifact\<close>

text \<open>
  The WebM and TGS converters hash \<^verbatim>\<open>fileId || url\<close>: the stable identifier when one is
  passed and is not empty, the URL otherwise. Their artifact is
  \<^verbatim>\<open><cacheDir>/<hash>.gif\<close>.
\<close>

lemma animated_key_prefers_stable_id:
  "(convertWebmToGif md5 (new_handler parent) env url fileId w = (Some (Inr p), w') \<longrightarrow>
      p = cacheDir (new_handler parent) @ ''/'' @ md5 (or_else fileId url) @ ''.gif'')
   \<and> (convertTgsToGif md5 (new_handler parent) tenv url fileId w = (Inr (Some p), w') \<longrightarrow>
      p = cacheDir (new_handler parent) @ ''/'' @ md5 (or_else fileId url) @ ''.gif'')
   \<and> (i \<noteq> [] \<longrightarrow> or_else (Some i) url = i) \<and> or_else None url = url"
  using convertWebmToGif_success [of md5 parent env url fileId w p w']
    convertTgsToGif_success [of md5 parent tenv url fileId w p w']
  by (simp add: or_else_def path_join_def)

text \<open>
  Claim C2 says that each of the three converters hashes the stable identifier when one
  is supplied. The static converter does not: called as the picker calls it, with the
  URL and the stable identifier \<^verbatim>\<open>abc123\<close>, it returns the path made from the digest of
  the URL, which is not the digest of \<^verbatim>\<open>abc123\<close>.
\<close>

theorem static_key_ignores_stable_id:
  "fst (resizeStaticImage_call md5_examples (new_handler ''/srv/bot'') static_fine
          ''https://example/file.png'' (Some ''abc123'') fresh_world)
     = Some (Inr (''/srv/bot/gif-cache/'' @ md5_examples ''https://example/file.png'' @ ''.webp''))
   \<and> md5_examples ''https://example/file.png'' \<noteq> md5_examples ''abc123''"
  by (simp add: resizeStaticImage_call_def resizeStaticImage_def static_try_def static_fine_def
      fs_defs)

text \<open>
  Claim C7 says that every cached artifact is named \<^verbatim>\<open><hash>.<ext>\<close> in the flat cache
  directory, the hash being the MD5 digest of the stable identifier if present, else of
  the URL. For the static converter called with the stable identifier \<^verbatim>\<open>abc123\<close>, the
  one file in the cache directory afterwards is named after the digest of the URL,
  \<^verbatim>\<open>d2a9a6630c9cf740bf0a56844d25bc81.webp\<close>, not after the digest of \<^verbatim>\<open>abc123\<close>.
\<close>

theorem static_artifact_named_by_url:
  "fst (resizeStaticImage_call md5_examples (new_handler ''/srv/bot'') static_fine
          ''https://example/file.png'' (Some ''abc123'') fresh_world)
     = Some (Inr ''/srv/bot/gif-cache/d2a9a6630c9cf740bf0a56844d25bc81.webp'')
   \<and> dirs (snd (resizeStaticImage_call md5_examples (new_handler ''/srv/bot'') static_fine
          ''https://example/file.png'' (Some ''abc123'') fresh_world)) ''/srv/bot/gif-cache''
     = Some [''d2a9a6630c9cf740bf0a56844d25bc81.webp'']
   \<and> md5_examples ''abc123'' = ''e99a18c428cb38d5f260853678922e03''"
  by (simp add: resizeStaticImage_call_def resizeStaticImage_def static_try_def static_fine_def
      fs_defs)

subsection \<open>The TGS converter: stride and rasterization loop\<close>

lemma digit_value_digit_char: "digit_value (digit_char d) = d mod 10"
proof -
  have "\<forall>m<10. digit_value (''0123456789'' ! m) = m"
    by (simp add: digit_value_def upt_conv_Cons eval_nat_numeral All_less_Suc)
  then show ?thesis
    by (simp add: digit_char_def)
qed

lemma parse_decimal_snoc: "parse_decimal (s @ [c]) = 10 * parse_decimal s + digit_value c"
  by (simp add: parse_decimal_def)

lemma parse_decimal_decimal: "parse_decimal (decimal n) = n"
proof (induction n rule: decimal.induct)
  case (1 n)
  show ?case
  proof (cases "n < 10")
    case True
    then show ?thesis
      by (simp add: decimal.simps [of n] parse_decimal_def digit_value_digit_char)
  next
    case False
    with 1 show ?thesis
      by (simp add: decimal.simps [of n] parse_decimal_snoc digit_value_digit_char)
  qed
qed

lemma parse_decimal_zeros: "parse_decimal (replicate k CHR ''0'' @ s) = parse_decimal s"
proof -
  have zero: "digit_value CHR ''0'' = 0"
    by (simp add: digit_value_def upt_conv_Cons)
  have "foldl (\<lambda>v c. 10 * v + digit_value c) 0 (replicate k CHR ''0'') = 0"
    by (induction k) (simp_all add: zero)
  then show ?thesis
    by (simp add: parse_decimal_def)
qed

lemma frame_name_inj: "frame_name m = frame_name n \<Longrightarrow> m = n"
proof -
  assume "frame_name m = frame_name n"
  then have "padStart4 (decimal m) = padStart4 (decimal n)"
    by (simp add: frame_name_def)
  then have "parse_decimal (padStart4 (decimal m)) = parse_decimal (padStart4 (decimal n))"
    by simp
  then show "m = n"
    by (simp add: padStart4_def parse_decimal_zeros parse_decimal_decimal)
qed

lemma tgs_step_formula:
  "tgs_step a = (case fr a of None \<Rightarrow> 1 | Some r \<Rightarrow> max 1 (math_round (r / 50)))"
  by (simp add: tgs_step_def native_rate_def math_round_def targetFps_def split: option.splits)

lemma tgs_step_24: "tgs_step \<lparr>fr = Some 24\<rparr> = 1"
  by (simp add: tgs_step_def native_rate_def math_round_def targetFps_def)

lemma renderFrames_run:
  assumes "dirs w fd = Some es"
    and "\<forall>k<m. raster (i + int k * tgs_step a)"
    and "T \<le> i + int m * tgs_step a"
    and "m = 0 \<or> i + int (m - 1) * tgs_step a < T"
  shows "\<exists>w' es'. renderFrames raster a T fd i n acc w
            = (Inr (n + m, acc @ map (\<lambda>k. (i + int k * tgs_step a, frame_name (n + k))) [0..<m]), w')
          \<and> dirs w' fd = Some es' \<and> set es' = set es \<union> frame_name ` {n..<n + m}"
  using assms
proof (induction m arbitrary: i n acc w es)
  case 0
  then show ?case
    by (simp add: renderFrames.simps [of raster a T fd i n acc w])
next
  case (Suc m)
  let ?s = "tgs_step a"
  have nonneg: "0 \<le> int m * ?s"
    using tgs_step_pos [of a] by simp
  from Suc.prems(4) have last: "i + int m * ?s < T" by simp
  with nonneg have lt: "i < T" by linarith
  from Suc.prems(2) have r0: "raster i"
    by (metis add.right_neutral mult_zero_left of_nat_0 zero_less_Suc)
  obtain w1 where wr: "write_file fd (frame_name n) w = Some w1"
    and d1: "dirs w1 fd = Some (List.insert (frame_name n) es)"
    using Suc.prems(1) by (simp add: write_file_def)
  have step: "renderFrames raster a T fd i n acc w
      = renderFrames raster a T fd (i + ?s) (n + 1) (acc @ [(i, frame_name n)]) w1"
    using lt r0 wr by (simp add: renderFrames.simps [of raster a T fd i n acc w])
  have shift: "i + ?s + int k * ?s = i + int (Suc k) * ?s" for k
    by (simp add: algebra_simps)
  have p2: "\<forall>k<m. raster (i + ?s + int k * ?s)"
    using Suc.prems(2) unfolding shift by auto
  have p3: "T \<le> i + ?s + int m * ?s"
    using Suc.prems(3) unfolding shift .
  have p4: "m = 0 \<or> i + ?s + int (m - 1) * ?s < T"
  proof (cases m)
    case 0
    then show ?thesis by simp
  next
    case (Suc m')
    with last show ?thesis
      by (simp add: algebra_simps)
  qed
  from Suc.IH [OF d1 p2 p3 p4, of "n + 1" "acc @ [(i, frame_name n)]"]
  obtain w' es' where res: "renderFrames raster a T fd (i + ?s) (n + 1) (acc @ [(i, frame_name n)]) w1
       = (Inr (n + 1 + m,
             (acc @ [(i, frame_name n)])
               @ map (\<lambda>k. (i + ?s + int k * ?s, frame_name (n + 1 + k))) [0..<m]), w')"
    and d': "dirs w' fd = Some es'"
    and s': "set es' = set (List.insert (frame_name n) es) \<union> frame_name ` {n + 1..<n + 1 + m}"
    by blast
  have list: "(acc @ [(i, frame_name n)])
        @ map (\<lambda>k. (i + ?s + int k * ?s, frame_name (n + 1 + k))) [0..<m]
      = acc @ map (\<lambda>k. (i + int k * ?s, frame_name (n + k))) [0..<Suc m]"
    unfolding shift by (simp add: map_upt_Suc del: upt_Suc)
  have names: "set (List.insert (frame_name n) es) \<union> frame_name ` {n + 1..<n + 1 + m}
      = set es \<union> frame_name ` {n..<n + Suc m}"
  proof -
    have "{n..<n + Suc m} = insert n {n + 1..<n + 1 + m}" by auto
    then show ?thesis by auto
  qed
  show ?case
    unfolding step res list using d' s' names by simp
qed

text \<open>The number of multiples of the stride below \<open>T\<close> is the ceiling of \<open>T / s\<close>.\<close>

lemma ceiling_count:
  fixes T s :: int
  assumes "1 \<le> s"
  defines "n \<equiv> nat \<lceil>(of_int T :: rat) / of_int s\<rceil>"
  shows "T \<le> int n * s" and "n = 0 \<or> int (n - 1) * s < T" and "int k * s < T \<longleftrightarrow> k < n"
proof -
  let ?c = "\<lceil>(of_int T :: rat) / of_int s\<rceil>"
  have spos: "(0::rat) < of_int s" using assms(1) by simp
  have up: "T \<le> ?c * s"
  proof -
    have "(of_int T :: rat) \<le> of_int ?c * of_int s"
      by (rule iffD1 [OF pos_divide_le_eq [OF spos] le_of_int_ceiling])
    then have "(of_int T :: rat) \<le> of_int (?c * s)" by simp
    then show ?thesis by (simp only: of_int_le_iff)
  qed
  have low: "(?c - 1) * s < T"
  proof -
    have "(of_int ?c - 1) * of_int s < (of_int T :: rat)"
      by (rule iffD1 [OF pos_less_divide_eq [OF spos] ceiling_correct [THEN conjunct1]])
    then have "(of_int ((?c - 1) * s) :: rat) < of_int T" by simp
    then show ?thesis by (simp only: of_int_less_iff)
  qed
  show a: "T \<le> int n * s"
  proof (cases "0 \<le> ?c")
    case True
    then have "int n = ?c" by (simp add: n_def)
    with up show ?thesis by simp
  next
    case False
    then have "?c * s \<le> 0" using assms(1) by (simp add: mult_le_0_iff)
    with up have "T \<le> 0" by linarith
    moreover from False have "n = 0" by (simp add: n_def)
    ultimately show ?thesis by simp
  qed
  show b: "n = 0 \<or> int (n - 1) * s < T"
  proof (cases "n = 0")
    case True
    then show ?thesis by simp
  next
    case False
    then have "int (n - 1) = ?c - 1" unfolding n_def by arith
    with low show ?thesis by simp
  qed
  show "int k * s < T \<longleftrightarrow> k < n"
  proof
    assume "int k * s < T"
    show "k < n"
    proof (rule ccontr)
      assume "\<not> k < n"
      then have "int n \<le> int k" by simp
      then have "int n * s \<le> int k * s" using assms(1) by (simp add: mult_right_mono)
      with a \<open>int k * s < T\<close> show False by linarith
    qed
  next
    assume "k < n"
    then have "n \<noteq> 0" and "int k \<le> int (n - 1)" by auto
    then have "int k * s \<le> int (n - 1) * s" using assms(1) by (simp add: mult_right_mono)
    with b \<open>n \<noteq> 0\<close> show "int k * s < T" by linarith
  qed
qed

lemma tgs_step_120: "tgs_step \<lparr>fr = Some 120\<rparr> = 2"
  by (simp add: tgs_step_def native_rate_def math_round_def targetFps_def floor_eq_iff)

lemma frame_names_0_1_2:
  "frame_name 0 = ''frame_0000.png''" "frame_name 1 = ''frame_0001.png''"
  "frame_name 2 = ''frame_0002.png''" "frame_name (Suc 0) = ''frame_0001.png''"
  by (simp_all add: frame_name_def padStart4_def decimal.simps digit_char_def numeral_3_eq_3)

text \<open>
  Claim C5. The stride is \<open>max 1 (round (fr / 50))\<close> for a document that declares the
  rate \<open>fr\<close> (and 1 for one that declares none, the rate then being taken as 60); it is 1
  for the rates 60 and 24. When the frames directory exists and every frame reached can
  be rasterized, the loop returns \<open>frameNum = \<lceil>totalFrames / stride\<rceil>\<close> and has written,
  in this order, the index \<open>k * stride\<close> to the file numbered \<open>k\<close>, for
  \<open>k = 0, 1, \<dots>, frameNum - 1\<close>; these indices are all the multiples of the stride below
  \<open>totalFrames\<close>, the file names are pairwise different, and the directory holds them
  afterwards.
\<close>

theorem tgs_stride_and_frames:
  assumes dir: "dirs w framesDir = Some es"
    and ok: "\<forall>k. int k * tgs_step a < totalFrames \<longrightarrow> raster (int k * tgs_step a)"
  shows "tgs_step a = (case fr a of None \<Rightarrow> 1 | Some r \<Rightarrow> max 1 (math_round (r / 50)))
    \<and> tgs_step \<lparr>fr = Some 60\<rparr> = 1 \<and> tgs_step \<lparr>fr = Some 24\<rparr> = 1
    \<and> (\<exists>w' es'.
          renderFrames raster a totalFrames framesDir 0 0 [] w
            = (Inr (nat \<lceil>(of_int totalFrames :: rat) / of_int (tgs_step a)\<rceil>,
                    map (\<lambda>k. (int k * tgs_step a, frame_name k))
                      [0..<nat \<lceil>(of_int totalFrames :: rat) / of_int (tgs_step a)\<rceil>]), w')
          \<and> dirs w' framesDir = Some es'
          \<and> set es' = set es
                \<union> frame_name ` {0..<nat \<lceil>(of_int totalFrames :: rat) / of_int (tgs_step a)\<rceil>})
    \<and> (\<forall>k. int k * tgs_step a < totalFrames
            \<longleftrightarrow> k < nat \<lceil>(of_int totalFrames :: rat) / of_int (tgs_step a)\<rceil>)
    \<and> inj frame_name"
proof -
  let ?n = "nat \<lceil>(of_int totalFrames :: rat) / of_int (tgs_step a)\<rceil>"
  note count = ceiling_count [OF tgs_step_pos [of a], where T = totalFrames]
  have all: "\<forall>k<?n. raster (0 + int k * tgs_step a)"
    using ok count(3) by simp
  from renderFrames_run [OF dir all, of totalFrames 0 "[]"] count(1,2)
  have run: "\<exists>w' es'.
          renderFrames raster a totalFrames framesDir 0 0 [] w
            = (Inr (?n, map (\<lambda>k. (int k * tgs_step a, frame_name k)) [0..<?n]), w')
          \<and> dirs w' framesDir = Some es'
          \<and> set es' = set es \<union> frame_name ` {0..<?n}"
    by simp
  have "inj frame_name"
    by (rule injI) (rule frame_name_inj)
  with run count(3) show ?thesis
    by (simp add: tgs_step_formula [symmetric] tgs_step_60 tgs_step_24)
qed

theorem tgs_stride_and_frames_witness:
  "dirs (mkdir_p ''/srv/bot/temp/tgs_e99a18c428cb38d5f260853678922e03'' fresh_world)
       ''/srv/bot/temp/tgs_e99a18c428cb38d5f260853678922e03'' = Some []
   \<and> tgs_step \<lparr>fr = Some 120\<rparr> = 2
   \<and> (\<exists>w'. renderFrames (\<lambda>i. True) \<lparr>fr = Some 120\<rparr> 5
              ''/srv/bot/temp/tgs_e99a18c428cb38d5f260853678922e03'' 0 0 []
              (mkdir_p ''/srv/bot/temp/tgs_e99a18c428cb38d5f260853678922e03'' fresh_world)
            = (Inr (3, [(0, ''frame_0000.png''), (2, ''frame_0001.png''), (4, ''frame_0002.png'')]),
               w'))"
proof -
  have dir: "dirs (mkdir_p ''/srv/bot/temp/tgs_e99a18c428cb38d5f260853678922e03'' fresh_world)
       ''/srv/bot/temp/tgs_e99a18c428cb38d5f260853678922e03'' = Some []"
    by (simp add: fs_defs)
  have ok: "\<forall>k. int k * tgs_step \<lparr>fr = Some 120\<rparr> < 5 \<longrightarrow> (\<lambda>i. True) (int k * tgs_step \<lparr>fr = Some 120\<rparr>)"
    by simp
  have "\<lceil>(of_int 5 :: rat) / of_int 2\<rceil> = 3"
    by (simp add: ceiling_eq_iff)
  then have count: "nat \<lceil>(of_int 5 :: rat) / of_int 2\<rceil> = 3"
    by simp
  have upt: "[0..<3] = [0, 1, 2::nat]"
    by (simp add: upt_conv_Cons)
  from tgs_stride_and_frames [OF dir ok, THEN conjunct2, THEN conjunct2, THEN conjunct2,
      THEN conjunct1]
  have "\<exists>w'. renderFrames (\<lambda>i. True) \<lparr>fr = Some 120\<rparr> 5
              ''/srv/bot/temp/tgs_e99a18c428cb38d5f260853678922e03'' 0 0 []
              (mkdir_p ''/srv/bot/temp/tgs_e99a18c428cb38d5f260853678922e03'' fresh_world)
            = (Inr (3, [(0, ''frame_0000.png''), (2, ''frame_0001.png''), (4, ''frame_0002.png'')]),
               w')"
    unfolding tgs_step_120 count upt by (auto simp: frame_names_0_1_2)
  with dir tgs_step_120 show ?thesis
    by (intro conjI)
qed

subsection \<open>The eviction sweep\<close>

lemma total_size_insort:
  "total_size (insort_key f x xs) = sizeBytes x + total_size xs"
  by (induction xs) (simp_all add: total_size_def)

lemma total_size_sort_key: "total_size (sort_key f xs) = total_size xs"
proof (induction xs)
  case Nil
  show ?case by simp
next
  case (Cons x xs)
  then show ?case
    by (simp add: total_size_insort) (simp add: total_size_def)
qed

lemma evict_is_prefix: "evict B S f xs @ drop (length (evict B S f xs)) xs = xs"
  by (induction xs arbitrary: f) simp_all

lemma evict_stops_at_budget:
  "S = f + total_size xs \<Longrightarrow>
     total_size (drop (length (evict B S f xs)) xs) \<le> B
     \<and> (\<forall>j<length (evict B S f xs). B < total_size (drop j xs))"
proof (induction xs arbitrary: f)
  case Nil
  show ?case by (simp add: total_size_def)
next
  case (Cons x xs)
  show ?case
  proof (cases "S - f \<le> B")
    case True
    with Cons.prems show ?thesis by simp
  next
    case False
    from Cons.prems have "S = (f + sizeBytes x) + total_size xs"
      by (simp add: total_size_def)
    from Cons.IH [OF this] False Cons.prems show ?thesis
      by (auto simp: less_Suc_eq_0_disj)
  qed
qed

lemma sweep_cache_example:
  "sweep 100 cache_example =
     ([\<lparr>artifact_name = ''b.gif'', sizeBytes = 50, lastModifiedTime = 1\<rparr>],
      [\<lparr>artifact_name = ''c.webp'', sizeBytes = 40, lastModifiedTime = 2\<rparr>,
       \<lparr>artifact_name = ''a.gif'', sizeBytes = 60, lastModifiedTime = 3\<rparr>])"
  by (simp add: sweep_def cache_example_def total_size_def Let_def)

text \<open>
  Claim C6. When the sizes in the cache directory sum to more than the budget \<open>B\<close>, one
  sweep leaves a total of at most \<open>B\<close>. The entries deleted are, in the order of deletion,
  an initial part of the entries sorted by last-modified time ascending, so that they are
  deleted oldest first and none of them is newer than an entry that is kept. The sweep
  deletes no more than needed: with any smaller number of the oldest entries deleted
  the total is still above \<open>B\<close>. A second sweep on what is left deletes nothing.
\<close>

theorem sweep_eviction:
  assumes over: "B < total_size entries"
    and run: "sweep B entries = (deleted, kept)"
  shows "total_size kept \<le> B
    \<and> deleted @ kept = sort_key lastModifiedTime entries
    \<and> sorted (map lastModifiedTime deleted)
    \<and> (\<forall>d\<in>set deleted. \<forall>k\<in>set kept. lastModifiedTime d \<le> lastModifiedTime k)
    \<and> (\<forall>j<length deleted. B < total_size (drop j (sort_key lastModifiedTime entries)))
    \<and> sweep B kept = ([], kept)"
proof -
  let ?xs = "sort_key lastModifiedTime entries"
  let ?S = "total_size entries"
  from over run have del: "deleted = evict B ?S 0 ?xs"
    and kept: "kept = drop (length deleted) ?xs"
    by (auto simp: sweep_def Let_def)
  have inv: "?S = 0 + total_size ?xs"
    by (simp add: total_size_sort_key)
  from evict_stops_at_budget [OF inv, of B]
  have small: "total_size kept \<le> B"
    and minimal: "\<forall>j<length deleted. B < total_size (drop j ?xs)"
    by (simp_all add: del [symmetric] kept)
  have split: "deleted @ kept = ?xs"
    using evict_is_prefix [of B ?S 0 ?xs] by (simp add: del [symmetric] kept)
  have "sorted (map lastModifiedTime (deleted @ kept))"
    unfolding split by (rule sorted_sort_key)
  then have order: "sorted (map lastModifiedTime deleted)"
    "\<forall>d\<in>set deleted. \<forall>k\<in>set kept. lastModifiedTime d \<le> lastModifiedTime k"
    by (auto simp: sorted_append)
  have again: "sweep B kept = ([], kept)"
    using small by (simp add: sweep_def)
  from small split order minimal again show ?thesis
    by simp
qed

theorem sweep_eviction_witness:
  "100 < total_size cache_example
   \<and> sweep 100 cache_example =
     ([\<lparr>artifact_name = ''b.gif'', sizeBytes = 50, lastModifiedTime = 1\<rparr>],
      [\<lparr>artifact_name = ''c.webp'', sizeBytes = 40, lastModifiedTime = 2\<rparr>,
       \<lparr>artifact_name = ''a.gif'', sizeBytes = 60, lastModifiedTime = 3\<rparr>])
   \<and> total_size [\<lparr>artifact_name = ''c.webp'', sizeBytes = 40, lastModifiedTime = 2\<rparr>,
       \<lparr>artifact_name = ''a.gif'', sizeBytes = 60, lastModifiedTime = 3\<rparr>] \<le> 100
   \<and> sweep 100 [\<lparr>artifact_name = ''c.webp'', sizeBytes = 40, lastModifiedTime = 2\<rparr>,
       \<lparr>artifact_name = ''a.gif'', sizeBytes = 60, lastModifiedTime = 3\<rparr>]
     = ([], [\<lparr>artifact_name = ''c.webp'', sizeBytes = 40, lastModifiedTime = 2\<rparr>,
       \<lparr>artifact_name = ''a.gif'', sizeBytes = 60, lastModifiedTime = 3\<rparr>])"
proof -
  have over: "100 < total_size cache_example"
    by (simp add: cache_example_def total_size_def)
  from sweep_eviction [OF over sweep_cache_example] over sweep_cache_example
  show ?thesis
    by simp
qed

end
